theory Spec2Isabelle
  imports Main
begin

section \<open>Go strings: bytes, white space, joining, decimal output\<close>

text \<open>
  A Go \<^verbatim>\<open>string\<close> is a sequence of bytes; \<^verbatim>\<open>len\<close> counts bytes and
  \<^verbatim>\<open>s[:n]\<close> cuts at a byte offset. Strings are therefore modelled as
  \<^typ>\<open>string\<close> (lists of 8-bit characters), where \<^const>\<open>length\<close> and
  \<^const>\<open>take\<close> have exactly that meaning.
\<close>

definition newline :: char where
  "newline = CHR 0x0A"

definition dquote :: char where
  "dquote = CHR 0x22"

text \<open>
  \<^verbatim>\<open>strings.ReplaceAll(s, "\n", " ")\<close>: the pattern is one byte long, so every
  newline byte becomes a blank and nothing else changes.
\<close>

definition ReplaceAllNewline :: "string \<Rightarrow> string" where
  "ReplaceAllNewline s = map (\<lambda>c. if c = newline then CHR '' '' else c) s"

text \<open>
  \<^verbatim>\<open>strings.TrimSpace\<close> removes leading and trailing white space as defined by
  Unicode, reading the string as UTF-8. \<open>spaceRunes\<close> lists the UTF-8 encodings of the
  code points for which \<^verbatim>\<open>unicode.IsSpace\<close> holds: tab, line feed, vertical tab, form
  feed, carriage return, blank, U+0085, U+00A0, U+1680, U+2000 to U+200A, U+2028, U+2029,
  U+202F, U+205F and U+3000. A byte sequence that is not one of these encodings decodes to
  a rune that is not white space (an invalid byte decodes to U+FFFD), and stops the trimming.
\<close>

definition spaceRunes :: "string list" where
  "spaceRunes =
    [[CHR 0x09], [CHR 0x0A], [CHR 0x0B], [CHR 0x0C], [CHR 0x0D], [CHR 0x20],
     [CHR 0xC2, CHR 0x85], [CHR 0xC2, CHR 0xA0],
     [CHR 0xE1, CHR 0x9A, CHR 0x80],
     [CHR 0xE2, CHR 0x80, CHR 0x80], [CHR 0xE2, CHR 0x80, CHR 0x81],
     [CHR 0xE2, CHR 0x80, CHR 0x82], [CHR 0xE2, CHR 0x80, CHR 0x83],
     [CHR 0xE2, CHR 0x80, CHR 0x84], [CHR 0xE2, CHR 0x80, CHR 0x85],
     [CHR 0xE2, CHR 0x80, CHR 0x86], [CHR 0xE2, CHR 0x80, CHR 0x87],
     [CHR 0xE2, CHR 0x80, CHR 0x88], [CHR 0xE2, CHR 0x80, CHR 0x89],
     [CHR 0xE2, CHR 0x80, CHR 0x8A],
     [CHR 0xE2, CHR 0x80, CHR 0xA8], [CHR 0xE2, CHR 0x80, CHR 0xA9],
     [CHR 0xE2, CHR 0x80, CHR 0xAF],
     [CHR 0xE2, CHR 0x81, CHR 0x9F],
     [CHR 0xE3, CHR 0x80, CHR 0x80]]"

text \<open>The white-space rune a string starts with, and the one it ends with.\<close>

definition leadingSpace :: "string \<Rightarrow> string option" where
  "leadingSpace s = find (\<lambda>e. take (length e) s = e) spaceRunes"

definition trailingSpace :: "string \<Rightarrow> string option" where
  "trailingSpace s = find (\<lambda>e. length e \<le> length s \<and> drop (length s - length e) s = e) spaceRunes"

lemma spaceRunes_nonempty: "e \<in> set spaceRunes \<Longrightarrow> e \<noteq> []"
  by (auto simp: spaceRunes_def)

lemma leadingSpace_Some:
  assumes "leadingSpace s = Some e"
  shows "e \<in> set spaceRunes" and "take (length e) s = e"
  using assms by (auto simp: leadingSpace_def find_Some_iff)

lemma trailingSpace_Some:
  assumes "trailingSpace s = Some e"
  shows "e \<in> set spaceRunes" and "length e \<le> length s"
    and "drop (length s - length e) s = e"
  using assms by (auto simp: trailingSpace_def find_Some_iff)

lemma leadingSpace_shorter:
  assumes "leadingSpace s = Some e"
  shows "length (drop (length e) s) < length s"
proof -
  from assms have ne: "e \<noteq> []" and tk: "take (length e) s = e"
    by (simp_all add: leadingSpace_Some spaceRunes_nonempty)
  from tk have "length (take (length e) s) = length e" by simp
  then have "length e \<le> length s" by simp
  moreover from ne have "0 < length e" by simp
  ultimately have "length s - length e < length s" by linarith
  then show ?thesis by simp
qed

lemma trailingSpace_shorter:
  assumes "trailingSpace s = Some e"
  shows "length (take (length s - length e) s) < length s"
proof -
  from assms have ne: "e \<noteq> []" and le: "length e \<le> length s"
    by (simp_all add: trailingSpace_Some spaceRunes_nonempty)
  from ne have "0 < length e" by simp
  with le have "length s - length e < length s" by linarith
  then show ?thesis by simp
qed

text \<open>\<^verbatim>\<open>strings.TrimLeftFunc(s, unicode.IsSpace)\<close>: skip white-space runes from the left.\<close>

function TrimLeftSpace :: "string \<Rightarrow> string" where
  "TrimLeftSpace s =
     (case leadingSpace s of
        None \<Rightarrow> s
      | Some e \<Rightarrow> TrimLeftSpace (drop (length e) s))"
  by pat_completeness auto
termination
  by (relation "measure length") (use leadingSpace_shorter in auto)

text \<open>\<^verbatim>\<open>strings.TrimRightFunc(s, unicode.IsSpace)\<close>: the same from the right.\<close>

function TrimRightSpace :: "string \<Rightarrow> string" where
  "TrimRightSpace s =
     (case trailingSpace s of
        None \<Rightarrow> s
      | Some e \<Rightarrow> TrimRightSpace (take (length s - length e) s))"
  by pat_completeness auto
termination
  by (relation "measure length") (use trailingSpace_shorter in auto)

definition TrimSpace :: "string \<Rightarrow> string" where
  "TrimSpace s = TrimRightSpace (TrimLeftSpace s)"

text \<open>\<^verbatim>\<open>strings.Join(parts, sep)\<close>.\<close>

fun Join :: "string list \<Rightarrow> string \<Rightarrow> string" where
  "Join [] sep = []"
| "Join [p] sep = p"
| "Join (p # q # ps) sep = p @ sep @ Join (q # ps) sep"

text \<open>The verb \<^verbatim>\<open>%d\<close> of \<^verbatim>\<open>fmt.Sprintf\<close>: decimal digits, with a minus sign for a
  negative number.\<close>

definition digitChar :: "nat \<Rightarrow> char" where
  "digitChar d = ''0123456789'' ! d"

function showNat :: "nat \<Rightarrow> string" where
  "showNat n = (if n < 10 then [digitChar n] else showNat (n div 10) @ [digitChar (n mod 10)])"
  by pat_completeness auto
termination
  by (relation "measure id") auto

definition showInt :: "int \<Rightarrow> string" where
  "showInt i = (if i < 0 then CHR ''-'' # showNat (nat (- i)) else showNat (nat i))"

section \<open>The instruction formatter (pkg/bridge/bridge.go)\<close>

text \<open>
  The three structures of the bridge. The integer fields are Go \<^verbatim>\<open>int\<close>s that are only
  printed, never computed with, so they are modelled as \<^typ>\<open>int\<close>. Field names are
  constants here, so the \<^verbatim>\<open>ID\<close> of an element is \<open>ElementID\<close> and the
  \<^verbatim>\<open>X\<close> and \<^verbatim>\<open>Y\<close> of an area are \<open>AreaX\<close> and \<open>AreaY\<close>.
\<close>

record ElementInfo =
  TagName :: string
  ElementID :: string
  Classes :: string
  Selector :: string
  InnerText :: string
  OuterHTML :: string

record AreaInfo =
  AreaX :: int
  AreaY :: int
  Width :: int
  Height :: int
  ElementCount :: int
  Elements :: "ElementInfo list"

record Message =
  ID :: int
  Area :: AreaInfo
  Instruction :: string
  Screenshot :: string

text \<open>
  The body of the loop of \<^verbatim>\<open>formatMessage\<close> up to \<^verbatim>\<open>elementDesc.String()\<close>: the
  descriptor of one element. \<open>innerTextClause\<close> and \<open>htmlClause\<close> are the two
  \<^verbatim>\<open>if\<close> blocks, each the text it writes to the builder.
\<close>

definition innerTextClause :: "ElementInfo \<Rightarrow> string" where
  "innerTextClause el =
     (if InnerText el \<noteq> [] then
        (let innerText = ReplaceAllNewline (InnerText el);
             innerText = TrimSpace innerText;
             innerText = (if length innerText > 50 then take 50 innerText @ ''...'' else innerText)
         in '' text:'' @ [dquote] @ innerText @ [dquote])
      else [])"

definition htmlClause :: "ElementInfo \<Rightarrow> string" where
  "htmlClause el =
     (if OuterHTML el \<noteq> [] then
        (let html = ReplaceAllNewline (OuterHTML el);
             html = TrimSpace html;
             html = (if length html > 100 then take 100 html @ ''...'' else html)
         in '' html:'' @ html)
      else [])"

definition elementDesc :: "ElementInfo \<Rightarrow> string" where
  "elementDesc el = ''['' @ Selector el @ innerTextClause el @ htmlClause el @ '']''"

definition moreElements :: "nat \<Rightarrow> string" where
  "moreElements n = ''[+'' @ showInt (int n - 20) @ '' more elements]''"

text \<open>
  The \<^verbatim>\<open>for i, el := range msg.Area.Elements\<close> loop: \<open>n\<close> is
  \<^verbatim>\<open>len(msg.Area.Elements)\<close>, \<open>i\<close> the index of the element at the head of the
  remaining list. Each round appends the descriptor; the test after it appends the
  summary token and leaves the loop.
\<close>

fun elementLoop :: "nat \<Rightarrow> nat \<Rightarrow> ElementInfo list \<Rightarrow> string list" where
  "elementLoop n i [] = []"
| "elementLoop n i (el # els) =
     elementDesc el #
       (if i \<ge> 19 \<and> n > 20 then [moreElements n] else elementLoop n (Suc i) els)"

definition areaClause :: "Message \<Rightarrow> string" where
  "areaClause msg =
     ''(Selected '' @ showInt (ElementCount (Area msg)) @ '' elements in '' @
     showInt (Width (Area msg)) @ ''x'' @ showInt (Height (Area msg)) @ '' area:''"

definition formatParts :: "Message \<Rightarrow> string list" where
  "formatParts msg =
     [Instruction msg, areaClause msg] @
     elementLoop (length (Elements (Area msg))) 0 (Elements (Area msg)) @
     ['')'']"

definition formatMessage :: "Message \<Rightarrow> string" where
  "formatMessage msg = Join (formatParts msg) '' ''"

lemma digitChar_inj: "a < 10 \<Longrightarrow> b < 10 \<Longrightarrow> digitChar a = digitChar b \<Longrightarrow> a = b"
proof -
  assume a: "a < 10" and b: "b < 10" and e: "digitChar a = digitChar b"
  have d: "distinct ''0123456789''" by simp
  have l: "length ''0123456789'' = 10" by simp
  from e have "''0123456789'' ! a = ''0123456789'' ! b" by (simp only: digitChar_def)
  with d a b l show "a = b" by (simp only: nth_eq_iff_index_eq)
qed

lemma digitChar_in: "d < 10 \<Longrightarrow> digitChar d \<in> set ''0123456789''"
  unfolding digitChar_def by (rule nth_mem) simp

lemma showNat_digits: "set (showNat n) \<subseteq> set ''0123456789''"
proof (induction n rule: showNat.induct)
  case (1 n)
  show ?case
  proof (cases "n < 10")
    case True
    then have "showNat n = [digitChar n]" by simp
    with True digitChar_in [of n] show ?thesis by simp
  next
    case False
    then have eq: "showNat n = showNat (n div 10) @ [digitChar (n mod 10)]" by simp
    have "digitChar (n mod 10) \<in> set ''0123456789''" by (rule digitChar_in) simp
    with 1 False eq show ?thesis by simp
  qed
qed

lemma showNat_nonempty: "showNat n \<noteq> []"
  by (subst showNat.simps) simp

lemma showNat_inj: "showNat n = showNat m \<Longrightarrow> n = m"
proof (induction n arbitrary: m rule: showNat.induct)
  case (1 n)
  show ?case
  proof (cases "n < 10")
    case True
    then have n: "showNat n = [digitChar n]" by simp
    show ?thesis
    proof (cases "m < 10")
      case True
      then have "showNat m = [digitChar m]" by simp
      with n 1(2) have "digitChar n = digitChar m" by simp
      with \<open>n < 10\<close> True show ?thesis by (rule digitChar_inj)
    next
      case False
      then have "showNat m = showNat (m div 10) @ [digitChar (m mod 10)]" by simp
      with n 1(2) have "showNat (m div 10) = []" by simp
      with showNat_nonempty show ?thesis by blast
    qed
  next
    case False
    then have n: "showNat n = showNat (n div 10) @ [digitChar (n mod 10)]" by simp
    show ?thesis
    proof (cases "m < 10")
      case True
      then have "showNat m = [digitChar m]" by simp
      with n 1(2) have "showNat (n div 10) = []" by simp
      with showNat_nonempty show ?thesis by blast
    next
      case mf: False
      then have "showNat m = showNat (m div 10) @ [digitChar (m mod 10)]" by simp
      with n 1(2) have a: "showNat (n div 10) = showNat (m div 10)"
        and b: "digitChar (n mod 10) = digitChar (m mod 10)" by simp_all
      from 1(1) [OF False a] have d: "n div 10 = m div 10" .
      have "n mod 10 = m mod 10" by (rule digitChar_inj [OF _ _ b]) simp_all
      with d show ?thesis by (metis div_mult_mod_eq)
    qed
  qed
qed

lemma showInt_inj: "showInt a = showInt b \<Longrightarrow> a = b"
proof -
  assume e: "showInt a = showInt b"
  have nd: "\<And>n. hd (showNat n) \<noteq> CHR ''-''"
  proof -
    fix n
    have "hd (showNat n) \<in> set (showNat n)" by (simp add: showNat_nonempty)
    with showNat_digits have "hd (showNat n) \<in> set ''0123456789''" by blast
    moreover have "CHR ''-'' \<notin> set ''0123456789''" by simp
    ultimately show "hd (showNat n) \<noteq> CHR ''-''" by metis
  qed
  show "a = b"
  proof (cases "a < 0")
    case True
    show ?thesis
    proof (cases "b < 0")
      case bt: True
      with True e have "showNat (nat (- a)) = showNat (nat (- b))" by (simp add: showInt_def)
      then have "nat (- a) = nat (- b)" by (rule showNat_inj)
      with True bt show ?thesis by simp
    next
      case False
      with True e have "CHR ''-'' # showNat (nat (- a)) = showNat (nat b)" by (simp add: showInt_def)
      then have "hd (showNat (nat b)) = CHR ''-''" by (metis list.sel(1))
      with nd show ?thesis by blast
    qed
  next
    case False
    show ?thesis
    proof (cases "b < 0")
      case True
      with False e have "showNat (nat a) = CHR ''-'' # showNat (nat (- b))" by (simp add: showInt_def)
      then have "hd (showNat (nat a)) = CHR ''-''" by (metis list.sel(1))
      with nd show ?thesis by blast
    next
      case bf: False
      with False e have "showNat (nat a) = showNat (nat b)" by (simp add: showInt_def)
      then have "nat a = nat b" by (rule showNat_inj)
      with False bf show ?thesis by simp
    qed
  qed
qed

lemma elementLoop_cap:
  "20 < n \<Longrightarrow> i \<le> 19 \<Longrightarrow> 19 - i < length els \<Longrightarrow>
   elementLoop n i els = map elementDesc (take (20 - i) els) @ [moreElements n]"
proof (induction els arbitrary: i)
  case Nil
  then show ?case by simp
next
  case (Cons el els)
  show ?case
  proof (cases "i = 19")
    case True
    with Cons.prems show ?thesis by simp
  next
    case False
    with Cons.prems have i: "i < 19" by simp
    then have s: "20 - i = Suc (20 - Suc i)" by simp
    from i Cons.prems have "elementLoop n (Suc i) els =
        map elementDesc (take (20 - Suc i) els) @ [moreElements n]"
      by (intro Cons.IH) simp_all
    with i show ?thesis by (simp add: s)
  qed
qed

lemma elementLoop_all:
  "n \<le> 20 \<Longrightarrow> elementLoop n i els = map elementDesc els"
  by (induction els arbitrary: i) simp_all

lemma elementLoop_eq:
  "elementLoop (length els) 0 els =
     map elementDesc (take 20 els) @ (if 20 < length els then [moreElements (length els)] else [])"
proof (cases "20 < length els")
  case True
  then show ?thesis using elementLoop_cap [of "length els" 0 els] by simp
next
  case False
  then show ?thesis by (simp add: elementLoop_all)
qed

subsection \<open>Sample inputs\<close>

definition exampleElement :: ElementInfo where
  "exampleElement =
     \<lparr>TagName = ''button'', ElementID = '''', Classes = ''buy'', Selector = ''button.buy'',
      InnerText = ''Buy'' @ [newline] @ ''now '', OuterHTML = ''<button>'' @ [newline] @ ''</button>''\<rparr>"

definition exampleMessage :: "nat \<Rightarrow> int \<Rightarrow> Message" where
  "exampleMessage n c =
     \<lparr>ID = 1,
      Area = \<lparr>AreaX = 0, AreaY = 0, Width = 300, Height = 120, ElementCount = c,
              Elements = replicate n exampleElement\<rparr>,
      Instruction = ''make the button purple'', Screenshot = ''''\<rparr>"

definition elementWithText :: "string \<Rightarrow> string \<Rightarrow> ElementInfo" where
  "elementWithText t h =
     \<lparr>TagName = ''p'', ElementID = '''', Classes = '''', Selector = ''p'',
      InnerText = t, OuterHTML = h\<rparr>"


text \<open>
  Claim C7. When the element list has more than 20 entries, the parts of the formatted
  instruction are the instruction, the area clause, the descriptors of the first 20
  elements in their captured order, one summary token carrying the total minus 20, and the
  closing marker; the result is these parts joined by blanks.
\<close>

theorem formatMessage_caps_at_20:
  assumes "20 < length (Elements (Area msg))"
  shows "formatParts msg =
           [Instruction msg, areaClause msg] @
           map elementDesc (take 20 (Elements (Area msg))) @
           [''[+'' @ showInt (int (length (Elements (Area msg))) - 20) @ '' more elements]'',
            '')'']
         \<and> length (map elementDesc (take 20 (Elements (Area msg)))) = 20
         \<and> formatMessage msg =
           Join ([Instruction msg, areaClause msg] @
                 map elementDesc (take 20 (Elements (Area msg))) @
                 [''[+'' @ showInt (int (length (Elements (Area msg))) - 20) @ '' more elements]'',
                  '')'']) '' ''"
proof -
  let ?els = "Elements (Area msg)"
  from assms have "elementLoop (length ?els) 0 ?els =
      map elementDesc (take 20 ?els) @ [moreElements (length ?els)]"
    by (simp add: elementLoop_eq)
  then have p: "formatParts msg =
      [Instruction msg, areaClause msg] @ map elementDesc (take 20 ?els) @
      [''[+'' @ showInt (int (length ?els) - 20) @ '' more elements]'', '')'']"
    by (simp add: formatParts_def moreElements_def)
  from assms have l: "length (map elementDesc (take 20 ?els)) = 20" by simp
  from p have "formatMessage msg =
      Join ([Instruction msg, areaClause msg] @ map elementDesc (take 20 ?els) @
            [''[+'' @ showInt (int (length ?els) - 20) @ '' more elements]'', '')'']) '' ''"
    by (simp only: formatMessage_def)
  with p l show ?thesis by blast
qed

lemma showInt_1: "showInt 1 = ''1''"
  by (simp add: showInt_def digitChar_def)

theorem formatMessage_caps_at_20_witness:
  "20 < length (Elements (Area (exampleMessage 21 21)))
   \<and> formatParts (exampleMessage 21 21) =
       [''make the button purple'', areaClause (exampleMessage 21 21)] @
       replicate 20 (elementDesc exampleElement) @ [''[+1 more elements]'', '')'']"
proof -
  have h: "20 < length (Elements (Area (exampleMessage 21 21)))"
    by (simp add: exampleMessage_def)
  have t: "take 20 (replicate 21 exampleElement) = replicate 20 exampleElement"
    by simp
  from formatMessage_caps_at_20 [OF h] h show ?thesis
    by (simp add: exampleMessage_def showInt_1 t)
qed

lemma innerTextClause_long:
  "50 < length (TrimSpace (ReplaceAllNewline (InnerText el))) \<Longrightarrow>
   innerTextClause el =
     '' text:'' @ [dquote] @ take 50 (TrimSpace (ReplaceAllNewline (InnerText el))) @ ''...'' @ [dquote]"
proof -
  assume l: "50 < length (TrimSpace (ReplaceAllNewline (InnerText el)))"
  have "InnerText el \<noteq> []"
  proof
    assume "InnerText el = []"
    then have "TrimSpace (ReplaceAllNewline (InnerText el)) = []"
      by (simp add: ReplaceAllNewline_def TrimSpace_def leadingSpace_def trailingSpace_def spaceRunes_def)
    with l show False by simp
  qed
  with l show ?thesis by (simp add: innerTextClause_def Let_def)
qed

lemma innerTextClause_short:
  "InnerText el \<noteq> [] \<Longrightarrow> length (TrimSpace (ReplaceAllNewline (InnerText el))) \<le> 50 \<Longrightarrow>
   innerTextClause el = '' text:'' @ [dquote] @ TrimSpace (ReplaceAllNewline (InnerText el)) @ [dquote]"
  by (simp add: innerTextClause_def Let_def)

lemma htmlClause_long:
  "100 < length (TrimSpace (ReplaceAllNewline (OuterHTML el))) \<Longrightarrow>
   htmlClause el = '' html:'' @ take 100 (TrimSpace (ReplaceAllNewline (OuterHTML el))) @ ''...''"
proof -
  assume l: "100 < length (TrimSpace (ReplaceAllNewline (OuterHTML el)))"
  have "OuterHTML el \<noteq> []"
  proof
    assume "OuterHTML el = []"
    then have "TrimSpace (ReplaceAllNewline (OuterHTML el)) = []"
      by (simp add: ReplaceAllNewline_def TrimSpace_def leadingSpace_def trailingSpace_def spaceRunes_def)
    with l show False by simp
  qed
  with l show ?thesis by (simp add: htmlClause_def Let_def)
qed

lemma htmlClause_short:
  "OuterHTML el \<noteq> [] \<Longrightarrow> length (TrimSpace (ReplaceAllNewline (OuterHTML el))) \<le> 100 \<Longrightarrow>
   htmlClause el = '' html:'' @ TrimSpace (ReplaceAllNewline (OuterHTML el))"
  by (simp add: htmlClause_def Let_def)

text \<open>
  Truncation, counted in bytes. In an element descriptor, an inner text that is longer
  than 50 bytes after its newlines were replaced and its ends trimmed is cut to its first
  50 bytes followed by three dots, and one of 50 bytes or fewer is written unchanged;
  markup longer than 100 bytes is cut to its first 100 bytes followed by three dots, and
  shorter markup is written unchanged.
\<close>

theorem elementDesc_truncation:
  "elementDesc el = ''['' @ Selector el @ innerTextClause el @ htmlClause el @ '']''
   \<and> (50 < length (TrimSpace (ReplaceAllNewline (InnerText el))) \<longrightarrow>
        innerTextClause el =
          '' text:'' @ [dquote] @ take 50 (TrimSpace (ReplaceAllNewline (InnerText el))) @
          ''...'' @ [dquote])
   \<and> (InnerText el \<noteq> [] \<and> length (TrimSpace (ReplaceAllNewline (InnerText el))) \<le> 50 \<longrightarrow>
        innerTextClause el =
          '' text:'' @ [dquote] @ TrimSpace (ReplaceAllNewline (InnerText el)) @ [dquote])
   \<and> (100 < length (TrimSpace (ReplaceAllNewline (OuterHTML el))) \<longrightarrow>
        htmlClause el =
          '' html:'' @ take 100 (TrimSpace (ReplaceAllNewline (OuterHTML el))) @ ''...'')
   \<and> (OuterHTML el \<noteq> [] \<and> length (TrimSpace (ReplaceAllNewline (OuterHTML el))) \<le> 100 \<longrightarrow>
        htmlClause el = '' html:'' @ TrimSpace (ReplaceAllNewline (OuterHTML el)))"
  unfolding elementDesc_def
  using innerTextClause_long [of el] innerTextClause_short [of el]
    htmlClause_long [of el] htmlClause_short [of el]
  by blast

definition text51 :: ElementInfo where
  "text51 = elementWithText ('' '' @ replicate 50 (CHR ''a'') @ ''b'' @ [newline])
                            (replicate 100 (CHR ''<'') @ ''>'')"

definition text50 :: ElementInfo where
  "text50 = elementWithText ('' '' @ replicate 49 (CHR ''a'') @ ''b'' @ [newline])
                            (replicate 99 (CHR ''<'') @ ''>'')"

lemma text51_trimmed:
  "TrimSpace (ReplaceAllNewline (InnerText text51)) = replicate 50 (CHR ''a'') @ ''b''"
  "TrimSpace (ReplaceAllNewline (OuterHTML text51)) = replicate 100 (CHR ''<'') @ ''>''"
  by code_simp+

lemma text50_trimmed:
  "TrimSpace (ReplaceAllNewline (InnerText text50)) = replicate 49 (CHR ''a'') @ ''b''"
  "TrimSpace (ReplaceAllNewline (OuterHTML text50)) = replicate 99 (CHR ''<'') @ ''>''"
  "InnerText text50 \<noteq> []" "OuterHTML text50 \<noteq> []"
  by code_simp+

theorem elementDesc_truncation_witness:
  "length (TrimSpace (ReplaceAllNewline (InnerText text51))) = 51
   \<and> innerTextClause text51 = '' text:'' @ [dquote] @ replicate 50 (CHR ''a'') @ ''...'' @ [dquote]
   \<and> length (TrimSpace (ReplaceAllNewline (OuterHTML text51))) = 101
   \<and> htmlClause text51 = '' html:'' @ replicate 100 (CHR ''<'') @ ''...''
   \<and> length (TrimSpace (ReplaceAllNewline (InnerText text50))) = 50
   \<and> innerTextClause text50 = '' text:'' @ [dquote] @ replicate 49 (CHR ''a'') @ ''b'' @ [dquote]
   \<and> length (TrimSpace (ReplaceAllNewline (OuterHTML text50))) = 100
   \<and> htmlClause text50 = '' html:'' @ replicate 99 (CHR ''<'') @ ''>''"
  using elementDesc_truncation [of text51] elementDesc_truncation [of text50]
  by (simp add: text51_trimmed text50_trimmed)

subsection \<open>Truncation and characters\<close>

text \<open>
  The characters of a text in UTF-8 are its code points: each starts with a byte that is
  not a continuation byte (one of the form \<^verbatim>\<open>10xxxxxx\<close>), so the number of characters
  of a well-formed text is the number of such bytes.
\<close>

definition isContinuationByte :: "char \<Rightarrow> bool" where
  "isContinuationByte c \<longleftrightarrow> digit7 c \<and> \<not> digit6 c"

definition characters :: "string \<Rightarrow> nat" where
  "characters s = length (filter (\<lambda>c. \<not> isContinuationByte c) s)"

text \<open>
  An element whose inner text is 49 times the letter a and then an e with an acute accent
  (U+00E9, the bytes C3 A9), and whose markup is 101 times that accented letter.
\<close>

definition accentText :: ElementInfo where
  "accentText =
     elementWithText (replicate 49 (CHR ''a'') @ [CHR 0xC3, CHR 0xA9])
                     (concat (replicate 101 [CHR 0xC3, CHR 0xA9]))"

text \<open>
  Claim C9. The formatter cuts at bytes, not at characters. The inner text of the sample
  has 50 characters (51 bytes) and nothing to trim, and yet it is not written unchanged:
  it is cut after its 50th byte, inside the last character, and the three dots follow.
  The markup has 101 characters and is cut to its first 100 bytes, which are 50 characters,
  not 100.
\<close>

theorem truncation_cuts_bytes:
  "characters (InnerText accentText) = 50
   \<and> length (InnerText accentText) = 51
   \<and> TrimSpace (ReplaceAllNewline (InnerText accentText)) = InnerText accentText
   \<and> innerTextClause accentText
       = '' text:'' @ [dquote] @ replicate 49 (CHR ''a'') @ [CHR 0xC3] @ ''...'' @ [dquote]
   \<and> innerTextClause accentText \<noteq> '' text:'' @ [dquote] @ InnerText accentText @ [dquote]
   \<and> characters (OuterHTML accentText) = 101
   \<and> TrimSpace (ReplaceAllNewline (OuterHTML accentText)) = OuterHTML accentText
   \<and> htmlClause accentText = '' html:'' @ concat (replicate 50 [CHR 0xC3, CHR 0xA9]) @ ''...''
   \<and> characters (concat (replicate 50 [CHR 0xC3, CHR 0xA9])) = 50"
  by code_simp

subsection \<open>Newlines in the formatted instruction\<close>

lemma set_TrimLeftSpace: "set (TrimLeftSpace s) \<subseteq> set s"
proof (induction s rule: TrimLeftSpace.induct)
  case (1 s)
  show ?case
  proof (cases "leadingSpace s")
    case None
    then show ?thesis by simp
  next
    case (Some e)
    with 1 have "set (TrimLeftSpace (drop (length e) s)) \<subseteq> set (drop (length e) s)" by simp
    moreover have "set (drop (length e) s) \<subseteq> set s" by (rule set_drop_subset)
    ultimately show ?thesis using Some by simp
  qed
qed

lemma set_TrimRightSpace: "set (TrimRightSpace s) \<subseteq> set s"
proof (induction s rule: TrimRightSpace.induct)
  case (1 s)
  show ?case
  proof (cases "trailingSpace s")
    case None
    then show ?thesis by simp
  next
    case (Some e)
    with 1 have "set (TrimRightSpace (take (length s - length e) s))
        \<subseteq> set (take (length s - length e) s)" by simp
    moreover have "set (take (length s - length e) s) \<subseteq> set s" by (rule set_take_subset)
    ultimately show ?thesis using Some by simp
  qed
qed

lemma set_TrimSpace: "set (TrimSpace s) \<subseteq> set s"
  unfolding TrimSpace_def using set_TrimLeftSpace set_TrimRightSpace by blast

lemma newline_ReplaceAllNewline: "newline \<notin> set (ReplaceAllNewline s)"
  by (auto simp: ReplaceAllNewline_def newline_def)

lemma newline_trimmed: "newline \<notin> set (TrimSpace (ReplaceAllNewline s))"
  using set_TrimSpace newline_ReplaceAllNewline by blast

lemma newline_take_trimmed: "newline \<notin> set (take n (TrimSpace (ReplaceAllNewline s)))"
  using newline_trimmed set_take_subset by fastforce

lemma newline_innerTextClause: "newline \<notin> set (innerTextClause el)"
  by (simp add: innerTextClause_def Let_def newline_trimmed newline_take_trimmed)
     (simp add: newline_def dquote_def)

lemma newline_htmlClause: "newline \<notin> set (htmlClause el)"
  by (simp add: htmlClause_def Let_def newline_trimmed newline_take_trimmed)
     (simp add: newline_def)

lemma newline_showInt: "newline \<notin> set (showInt i)"
proof -
  have d: "newline \<notin> set ''0123456789''" by (simp add: newline_def)
  have "\<And>n. newline \<notin> set (showNat n)" using showNat_digits d by blast
  then show ?thesis by (simp add: showInt_def newline_def)
qed

lemma newline_areaClause: "newline \<notin> set (areaClause msg)"
  by (simp add: areaClause_def newline_showInt) (simp add: newline_def)

lemma newline_moreElements: "newline \<notin> set (moreElements n)"
  by (simp add: moreElements_def newline_showInt) (simp add: newline_def)

lemma newline_elementDesc:
  "newline \<in> set (elementDesc el) \<longleftrightarrow> newline \<in> set (Selector el)"
  by (simp add: elementDesc_def newline_innerTextClause newline_htmlClause)
     (simp add: newline_def)

lemma set_Join: "set (Join ps sep) \<subseteq> (\<Union>p \<in> set ps. set p) \<union> set sep"
  by (induction ps sep rule: Join.induct) auto

lemma set_Join_mem: "p \<in> set ps \<Longrightarrow> set p \<subseteq> set (Join ps sep)"
  by (induction ps sep rule: Join.induct) auto

lemma formatMessage_single_line:
  assumes "newline \<notin> set (Instruction msg)"
    and "\<forall>el \<in> set (take 20 (Elements (Area msg))). newline \<notin> set (Selector el)"
  shows "newline \<notin> set (formatMessage msg)"
proof
  assume "newline \<in> set (formatMessage msg)"
  then have "newline \<in> (\<Union>p \<in> set (formatParts msg). set p) \<union> set '' ''"
    unfolding formatMessage_def using set_Join by blast
  then obtain p where p: "p \<in> set (formatParts msg)" and n: "newline \<in> set p"
    by (auto simp: newline_def)
  from p have "p = Instruction msg \<or> p = areaClause msg
      \<or> p \<in> elementDesc ` set (take 20 (Elements (Area msg)))
      \<or> p = moreElements (length (Elements (Area msg))) \<or> p = '')''"
    by (auto simp: formatParts_def elementLoop_eq split: if_splits)
  with n assms newline_areaClause newline_moreElements newline_elementDesc
  show False by (auto simp: newline_def)
qed

definition newlineMessage :: Message where
  "newlineMessage =
     \<lparr>ID = 7,
      Area = \<lparr>AreaX = 0, AreaY = 0, Width = 300, Height = 120, ElementCount = 0, Elements = []\<rparr>,
      Instruction = ''make it'' @ [newline] @ ''purple'', Screenshot = ''''\<rparr>"

text \<open>
  Claim C8. The formatter writes the instruction (and every selector) as it is, so an
  instruction that holds a newline gives an output that holds one: the output is not a
  single line. Only the inner text and the markup have their newlines replaced.
\<close>

theorem formatMessage_instruction_newline:
  "formatMessage newlineMessage =
     ''make it'' @ [newline] @ ''purple (Selected 0 elements in 300x120 area: )''
   \<and> newline \<in> set (formatMessage newlineMessage)"
  by (simp add: formatMessage_def formatParts_def areaClause_def newlineMessage_def
      showInt_def digitChar_def)

subsection \<open>The count in the area clause\<close>

lemma formatParts_eq:
  "formatParts msg =
     [Instruction msg, areaClause msg] @
     map elementDesc (take 20 (Elements (Area msg))) @
     (if 20 < length (Elements (Area msg))
      then [moreElements (length (Elements (Area msg)))] else []) @
     ['')'']"
  by (simp add: formatParts_def elementLoop_eq)

text \<open>
  Claim C10, as amended. The count printed in the area clause is the field
  \<^verbatim>\<open>ElementCount\<close> of the message, whatever the length of the element list. The
  descriptors written are those of the first 20 elements. When the field differs from the
  length of the list and the list has at most 20 entries, the printed count is not the
  decimal numeral of the number of descriptors written.
\<close>

theorem areaClause_prints_ElementCount:
  "formatParts msg =
     [Instruction msg,
      ''(Selected '' @ showInt (ElementCount (Area msg)) @ '' elements in '' @
      showInt (Width (Area msg)) @ ''x'' @ showInt (Height (Area msg)) @ '' area:''] @
     map elementDesc (take 20 (Elements (Area msg))) @
     (if 20 < length (Elements (Area msg))
      then [moreElements (length (Elements (Area msg)))] else []) @
     ['')'']
   \<and> (ElementCount (Area msg) \<noteq> int (length (Elements (Area msg)))
        \<and> length (Elements (Area msg)) \<le> 20 \<longrightarrow>
      showInt (ElementCount (Area msg)) \<noteq>
        showInt (int (length (map elementDesc (take 20 (Elements (Area msg)))))))"
proof -
  have "ElementCount (Area msg) \<noteq> int (length (map elementDesc (take 20 (Elements (Area msg)))))"
    if "ElementCount (Area msg) \<noteq> int (length (Elements (Area msg)))"
      and "length (Elements (Area msg)) \<le> 20"
    using that by simp
  then show ?thesis
    using formatParts_eq [of msg] showInt_inj unfolding areaClause_def by blast
qed

theorem areaClause_prints_ElementCount_witness:
  "ElementCount (Area (exampleMessage 2 5)) \<noteq> int (length (Elements (Area (exampleMessage 2 5))))
   \<and> length (Elements (Area (exampleMessage 2 5))) \<le> 20
   \<and> formatParts (exampleMessage 2 5) =
       [''make the button purple'', ''(Selected 5 elements in 300x120 area:'',
        elementDesc exampleElement, elementDesc exampleElement, '')'']
   \<and> showInt 5 \<noteq> showInt 2"
proof -
  have e: "replicate 2 exampleElement = [exampleElement, exampleElement]"
    by (simp add: numeral_2_eq_2)
  have s: "showInt 5 = ''5''" "showInt 300 = ''300''" "showInt 120 = ''120''" "showInt 2 = ''2''"
    by (simp_all add: showInt_def digitChar_def)
  from areaClause_prints_ElementCount [of "exampleMessage 2 5"] show ?thesis
    by (simp add: exampleMessage_def e s)
qed

text \<open>
  With 21 elements and \<^verbatim>\<open>ElementCount\<close> 20 the field and the length of the list
  disagree, and yet the printed count is the number of descriptors written, 20.
\<close>

theorem areaClause_count_counterexample:
  "ElementCount (Area (exampleMessage 21 20)) \<noteq> int (length (Elements (Area (exampleMessage 21 20))))
   \<and> formatParts (exampleMessage 21 20) =
       [''make the button purple'', ''(Selected 20 elements in 300x120 area:''] @
       replicate 20 (elementDesc exampleElement) @ [''[+1 more elements]'', '')'']
   \<and> length (replicate 20 (elementDesc exampleElement)) = 20"
proof -
  have t: "take 20 (replicate 21 exampleElement) = replicate 20 exampleElement"
    by simp
  have s: "showInt 20 = ''20''" "showInt 300 = ''300''" "showInt 120 = ''120''"
    by (simp_all add: showInt_def digitChar_def)
  show ?thesis
    by (simp add: formatParts_eq areaClause_def moreElements_def exampleMessage_def t s showInt_1)
qed

section \<open>The correlated transport (frontend/src/hooks/useWebSocket.ts)\<close>

text \<open>
  The hook keeps its state in React refs and one state variable. The model is a record of
  them, together with what the hook does to the outside: the messages written to the socket,
  the calls of response handlers, and the inbound messages it gave up with a console
  warning. A response handler is a caller's closure; the model knows it by a value of the
  type \<open>'h\<close> and records each call with the data it was called on. Handlers are taken to
  return normally and not to call back into the hook.
\<close>

datatype readyState = CONNECTING | OPEN | CLOSING | CLOSED

text \<open>
  An inbound message after \<^verbatim>\<open>JSON.parse\<close>: \<open>dataId\<close> is \<^verbatim>\<open>data.id\<close> when it is a
  number (\<open>None\<close> when it is absent or something else), \<open>dataStatus\<close> is
  \<^verbatim>\<open>data.status\<close>, \<open>dataRest\<close> the other fields.
\<close>

record data =
  dataId :: "nat option"
  dataStatus :: string
  dataRest :: string

datatype inbound = Malformed | ParsedNull | Parsed data

datatype jsError = SyntaxError | TypeError

record 'h transport =
  wsReadyState :: "readyState option"
  isConnected :: bool
  messageHandlers :: "nat \<rightharpoonup> 'h"
  reconnectTimeout :: "nat option"
  reconnectAttempts :: nat
  sent :: "(nat \<times> string) list"
  invoked :: "('h \<times> data) list"
  warned :: "data list"

definition maxReconnectAttempts :: nat where
  "maxReconnectAttempts = 5"

definition baseReconnectDelay :: nat where
  "baseReconnectDelay = 1000"

text \<open>
  \<^verbatim>\<open>sendMessage(message, onResponse?)\<close>. \<open>now\<close> is the value of \<^verbatim>\<open>Date.now()\<close>,
  the number of milliseconds since the epoch; the result is the message id, or \<open>None\<close>
  for \<^verbatim>\<open>null\<close>.
\<close>

definition sendMessage ::
  "'h transport \<Rightarrow> nat \<Rightarrow> string \<Rightarrow> 'h option \<Rightarrow> nat option \<times> 'h transport" where
  "sendMessage s now message onResponse =
     (if wsReadyState s = Some OPEN then
        (let messageId = now;
             s = (case onResponse of
                    Some h \<Rightarrow> s\<lparr>messageHandlers := (messageHandlers s)(messageId \<mapsto> h)\<rparr>
                  | None \<Rightarrow> s);
             s = s\<lparr>sent := sent s @ [(messageId, message)]\<rparr>
         in (Some messageId, s))
      else (None, s))"

text \<open>
  \<^verbatim>\<open>ws.onmessage\<close>. \<^verbatim>\<open>JSON.parse\<close> throws on a malformed text, and reading
  \<^verbatim>\<open>data.status\<close> throws when the text is \<^verbatim>\<open>null\<close>. The test
  \<^verbatim>\<open>data.id && messageHandlersRef.current.has(data.id)\<close> fails for the id 0, which
  JavaScript takes for false.
\<close>

definition onmessage :: "'h transport \<Rightarrow> inbound \<Rightarrow> jsError + 'h transport" where
  "onmessage s event =
     (case event of
        Malformed \<Rightarrow> Inl SyntaxError
      | ParsedNull \<Rightarrow> Inl TypeError
      | Parsed d \<Rightarrow>
          (case dataId d of
             None \<Rightarrow> Inr (s\<lparr>warned := warned s @ [d]\<rparr>)
           | Some i \<Rightarrow>
               (if i \<noteq> 0 \<and> messageHandlers s i \<noteq> None then
                  (let s = (case messageHandlers s i of
                              None \<Rightarrow> s
                            | Some handler \<Rightarrow> s\<lparr>invoked := invoked s @ [(handler, d)]\<rparr>)
                   in if dataStatus d = ''complete'' \<or> dataStatus d = ''error''
                      then Inr (s\<lparr>messageHandlers := (messageHandlers s)(i := None)\<rparr>)
                      else Inr s)
                else Inr (s\<lparr>warned := warned s @ [d]\<rparr>))))"

text \<open>\<^verbatim>\<open>ws.onopen\<close> and \<^verbatim>\<open>ws.onerror\<close>.\<close>

definition onopen :: "'h transport \<Rightarrow> 'h transport" where
  "onopen s = s\<lparr>wsReadyState := Some OPEN, isConnected := True, reconnectAttempts := 0\<rparr>"

definition onerror :: "'h transport \<Rightarrow> 'h transport" where
  "onerror s = s\<lparr>isConnected := False\<rparr>"

text \<open>
  \<^verbatim>\<open>ws.onclose\<close>: the socket is closed, the flag is cleared, and a timer for the
  reconnection is set unless the attempts are used up. Nothing else happens.
\<close>

definition onclose :: "'h transport \<Rightarrow> 'h transport" where
  "onclose s =
     (let s = s\<lparr>wsReadyState := Some CLOSED, isConnected := False\<rparr>
      in if reconnectAttempts s < maxReconnectAttempts
         then s\<lparr>reconnectTimeout := Some (baseReconnectDelay * 2 ^ reconnectAttempts s)\<rparr>
         else s)"

text \<open>\<^verbatim>\<open>connect\<close> (with a proxy URL): a new socket, not yet open.\<close>

definition connect :: "'h transport \<Rightarrow> 'h transport" where
  "connect s = s\<lparr>wsReadyState := Some CONNECTING\<rparr>"

text \<open>The callback of the reconnection timer.\<close>

definition reconnectTimer :: "'h transport \<Rightarrow> 'h transport" where
  "reconnectTimer s = connect (s\<lparr>reconnectAttempts := Suc (reconnectAttempts s)\<rparr>)"

text \<open>The state of a hook that was mounted and whose first socket is open.\<close>

definition connectedTransport :: "'h transport" where
  "connectedTransport =
     \<lparr>wsReadyState = Some OPEN, isConnected = True, messageHandlers = Map.empty,
      reconnectTimeout = None, reconnectAttempts = 0, sent = [], invoked = [], warned = []\<rparr>"

definition completeData :: "nat \<Rightarrow> data" where
  "completeData i = \<lparr>dataId = Some i, dataStatus = ''complete'', dataRest = ''''\<rparr>"

text \<open>
  Claim C6. After \<^verbatim>\<open>sendMessage\<close> registered the handler \<open>h\<close> under the id it
  assigned (a timestamp, not 0), an inbound message with that id and the status
  \<^verbatim>\<open>complete\<close> calls \<open>h\<close> once, on that message, and removes the entry; a later
  message with the same id calls nothing, changes no handler and raises no error: it is
  given up with a warning.
\<close>

theorem transport_round_trip:
  assumes "wsReadyState s = Some OPEN" and "now \<noteq> 0"
    and "dataId d = Some now" and "dataStatus d = ''complete''"
    and "dataId d' = Some now"
  shows "\<exists>s1 s2.
           sendMessage s now message (Some h) = (Some now, s1)
         \<and> messageHandlers s1 now = Some h
         \<and> onmessage s1 (Parsed d) = Inr s2
         \<and> invoked s2 = invoked s1 @ [(h, d)]
         \<and> messageHandlers s2 = (messageHandlers s1)(now := None)
         \<and> messageHandlers s2 now = None
         \<and> onmessage s2 (Parsed d') = Inr (s2\<lparr>warned := warned s2 @ [d']\<rparr>)"
  using assms by (simp add: sendMessage_def onmessage_def Let_def)

theorem transport_round_trip_witness:
  "wsReadyState (connectedTransport :: nat transport) = Some OPEN
   \<and> (1700000000000 :: nat) \<noteq> 0
   \<and> dataId (completeData 1700000000000) = Some 1700000000000
   \<and> dataStatus (completeData 1700000000000) = ''complete''
   \<and> (\<exists>s1 s2.
          sendMessage (connectedTransport :: nat transport) 1700000000000 ''payload'' (Some 42)
            = (Some 1700000000000, s1)
        \<and> messageHandlers s1 1700000000000 = Some 42
        \<and> onmessage s1 (Parsed (completeData 1700000000000)) = Inr s2
        \<and> invoked s2 = invoked s1 @ [(42, completeData 1700000000000)]
        \<and> messageHandlers s2 = (messageHandlers s1)(1700000000000 := None)
        \<and> messageHandlers s2 1700000000000 = None
        \<and> onmessage s2 (Parsed (completeData 1700000000000))
            = Inr (s2\<lparr>warned := warned s2 @ [completeData 1700000000000]\<rparr>))"
proof -
  have a: "wsReadyState (connectedTransport :: nat transport) = Some OPEN"
    by (simp add: connectedTransport_def)
  have b: "(1700000000000 :: nat) \<noteq> 0" by simp
  have c: "dataId (completeData 1700000000000) = Some 1700000000000"
    and d: "dataStatus (completeData 1700000000000) = ''complete''"
    by (simp_all add: completeData_def)
  from transport_round_trip [OF a b c d c, of "''payload''" 42] a b c d
  show ?thesis by blast
qed


text \<open>
  Claim C3, as amended. Closing the connection leaves every registered handler in the map
  and calls none: \<^verbatim>\<open>onclose\<close> clears the connected flag and, while fewer than 5
  reconnections were tried, sets the timer for the next one to 1000 times 2 to the number
  of attempts, in milliseconds. The timer's callback and the opening of the new socket do
  not touch the handlers either.
\<close>

theorem onclose_keeps_handlers:
  "messageHandlers (onclose s) = messageHandlers s
   \<and> invoked (onclose s) = invoked s
   \<and> isConnected (onclose s) = False
   \<and> reconnectTimeout (onclose s) =
       (if reconnectAttempts s < 5 then Some (1000 * 2 ^ reconnectAttempts s)
        else reconnectTimeout s)
   \<and> messageHandlers (reconnectTimer s) = messageHandlers s
   \<and> invoked (reconnectTimer s) = invoked s
   \<and> messageHandlers (onopen s) = messageHandlers s
   \<and> invoked (onopen s) = invoked s"
  by (simp add: onclose_def reconnectTimer_def connect_def onopen_def Let_def
      maxReconnectAttempts_def baseReconnectDelay_def)

text \<open>
  A request is sent with a handler and the connection closes before any answer: the
  handler is still registered after the close, and after the reconnection, and it was
  never called.
\<close>

theorem onclose_pending_counterexample:
  "messageHandlers
     (onclose (snd (sendMessage (connectedTransport :: nat transport) 1700000000000
        ''payload'' (Some 42)))) 1700000000000 = Some 42
   \<and> invoked
     (onclose (snd (sendMessage (connectedTransport :: nat transport) 1700000000000
        ''payload'' (Some 42)))) = []
   \<and> messageHandlers
     (onopen (reconnectTimer (onclose (snd (sendMessage (connectedTransport :: nat transport)
        1700000000000 ''payload'' (Some 42)))))) 1700000000000 = Some 42
   \<and> invoked
     (onopen (reconnectTimer (onclose (snd (sendMessage (connectedTransport :: nat transport)
        1700000000000 ''payload'' (Some 42)))))) = []"
  by (simp add: onclose_def reconnectTimer_def connect_def onopen_def Let_def
      sendMessage_def connectedTransport_def maxReconnectAttempts_def)

section \<open>The checkpoint manager (package git)\<close>

subsection \<open>A model of the git repository and of the commands the manager runs\<close>

text \<open>
  The manager does all its work by running git in the project directory. What it achieves
  depends on what those commands do, so they are modelled here on a repository that
  consists of the commit objects, the branches, \<^verbatim>\<open>HEAD\<close>, the index and the
  working tree.

  \<^item> A tree (the content of all files) is an opaque value; only equality of trees matters.
    Untracked files are not told apart: after \<^verbatim>\<open>git reset --hard\<close> the working tree
    is the tree of the commit, while git leaves untracked files where they are.
  \<^item> The objects are kept newest first: a commit is stored after its parents, so its
    parents come later in the list.
  \<^item> Branches are the only refs (no tags, remotes or stash), and no merge is in progress.
  \<^item> What git decides from things outside this state is an input, the environment: the
    clock, the object names git computes, the identity of the user, the result of a
    three-way merge, and whether uncommitted changes can be carried over a switch of
    the checked-out commit.
\<close>

record commitObj =
  oid :: string
  parents :: "string list"
  tree :: string
  authorName :: string
  authorDate :: string
  commitTime :: int
  message :: string

datatype headRef = OnBranch string | Detached string

record repo =
  objects :: "commitObj list"
  branches :: "(string \<times> string) list"
  HEAD :: headRef
  index :: string
  worktree :: string

datatype mergeResult = Merged string | Conflicts string string

record env =
  now :: int
  nowISO :: string
  commitOid :: string
  mergeOid :: string
  userName :: string
  mergeResult :: mergeResult
  localChanges :: "(string \<times> string) option"

text \<open>
  The commands, each with the command line it stands for:
  \<^item> \<open>RevParseAbbrevRefHEAD\<close>: \<^verbatim>\<open>git rev-parse --abbrev-ref HEAD\<close>
  \<^item> \<open>RevParseVerify n\<close>: \<^verbatim>\<open>git rev-parse --verify n\<close>
  \<^item> \<open>Branch n\<close>: \<^verbatim>\<open>git branch n\<close>
  \<^item> \<open>Checkout n\<close>: \<^verbatim>\<open>git checkout n\<close>
  \<^item> \<open>MergeFFOnly n\<close>: \<^verbatim>\<open>git merge --ff-only n\<close>
  \<^item> \<open>Merge n\<close>: \<^verbatim>\<open>git merge n\<close>
  \<^item> \<open>AddAll\<close>: \<^verbatim>\<open>git add .\<close>
  \<^item> \<open>CommitM m\<close>: \<^verbatim>\<open>git commit -m m\<close>
  \<^item> \<open>ResetHard n\<close>: \<^verbatim>\<open>git reset --hard n\<close>
  \<^item> \<open>LogAll k\<close>: \<^verbatim>\<open>git log --all --date-order -k --pretty=format:%H|%h|%an|%aI|%s\<close>
\<close>

datatype gitCommand =
    RevParseAbbrevRefHEAD
  | RevParseVerify string
  | Branch string
  | Checkout string
  | MergeFFOnly string
  | Merge string
  | AddAll
  | CommitM string
  | ResetHard string
  | LogAll int

text \<open>Looking up objects, branches and revisions.\<close>

definition findObj :: "repo \<Rightarrow> string \<Rightarrow> commitObj option" where
  "findObj r h = find (\<lambda>c. oid c = h) (objects r)"

definition branchTip :: "repo \<Rightarrow> string \<Rightarrow> commitObj option" where
  "branchTip r n = (case map_of (branches r) n of None \<Rightarrow> None | Some h \<Rightarrow> findObj r h)"

definition headCommit :: "repo \<Rightarrow> commitObj option" where
  "headCommit r = (case HEAD r of OnBranch b \<Rightarrow> branchTip r b | Detached h \<Rightarrow> findObj r h)"

definition isHexName :: "string \<Rightarrow> bool" where
  "isHexName s \<longleftrightarrow> 4 \<le> length s \<and> length s \<le> 40 \<and> list_all (\<lambda>c. c \<in> set ''0123456789abcdef'') s"

text \<open>
  A revision argument is the name of a branch, or else the hexadecimal name of an object
  or an abbreviation of it (at least four digits) that fits one object only. The other
  ways git has to name a revision (\<^verbatim>\<open>HEAD~1\<close>, upper-case digits, tags) are not
  modelled: such an argument does not resolve here.
\<close>

definition resolveRev :: "repo \<Rightarrow> string \<Rightarrow> commitObj option" where
  "resolveRev r n =
     (case map_of (branches r) n of
        Some h \<Rightarrow> findObj r h
      | None \<Rightarrow>
          (if isHexName n then
             (case filter (\<lambda>c. take (length n) (oid c) = n) (objects r) of
                [c] \<Rightarrow> Some c
              | _ \<Rightarrow> None)
           else None))"

definition setBranch :: "string \<Rightarrow> string \<Rightarrow> (string \<times> string) list \<Rightarrow> (string \<times> string) list" where
  "setBranch n h bs = (n, h) # filter (\<lambda>b. fst b \<noteq> n) bs"

text \<open>Moving what \<^verbatim>\<open>HEAD\<close> stands for: the branch it is on, or itself when detached.\<close>

definition moveHead :: "repo \<Rightarrow> string \<Rightarrow> repo" where
  "moveHead r h =
     (case HEAD r of
        OnBranch b \<Rightarrow> r\<lparr>branches := setBranch b h (branches r)\<rparr>
      | Detached _ \<Rightarrow> r\<lparr>HEAD := Detached h\<rparr>)"

text \<open>
  The commits that can be reached from the names in \<open>want\<close>, newest first. The list of
  objects is walked once, which is enough because parents come after their children.
\<close>

fun reach :: "commitObj list \<Rightarrow> string list \<Rightarrow> commitObj list" where
  "reach [] want = []"
| "reach (c # cs) want =
     (if oid c \<in> set want then c # reach cs (parents c @ want) else reach cs want)"

definition isAncestor :: "repo \<Rightarrow> commitObj \<Rightarrow> commitObj \<Rightarrow> bool" where
  "isAncestor r a b \<longleftrightarrow> oid a \<in> set (map oid (reach (objects r) [oid b]))"

text \<open>
  The index and the working tree after the checked-out commit changes from one with the
  tree \<open>old\<close> to one with the tree \<open>new\<close>. Without uncommitted changes both become
  \<open>new\<close>; when the two trees are equal nothing is touched; otherwise git carries the
  changes over or refuses, depending on the files they touch.
\<close>

definition switchTrees :: "env \<Rightarrow> repo \<Rightarrow> string \<Rightarrow> string \<Rightarrow> (string \<times> string) option" where
  "switchTrees e r old new =
     (if index r = old \<and> worktree r = old then Some (new, new)
      else if new = old then Some (index r, worktree r)
      else localChanges e)"

definition headTree :: "repo \<Rightarrow> string" where
  "headTree r = (case headCommit r of None \<Rightarrow> [] | Some c \<Rightarrow> tree c)"

text \<open>The subject of a commit message, as \<^verbatim>\<open>%s\<close> prints it.\<close>

fun splitOn :: "char \<Rightarrow> string \<Rightarrow> string list" where
  "splitOn sep [] = [[]]"
| "splitOn sep (x # xs) =
     (if x = sep then [] # splitOn sep xs
      else (case splitOn sep xs of [] \<Rightarrow> [[x]] | p # ps \<Rightarrow> (x # p) # ps))"

definition gitIsSpace :: "char \<Rightarrow> bool" where
  "gitIsSpace c \<longleftrightarrow> c = CHR '' '' \<or> c = CHR 0x09 \<or> c = CHR 0x0A \<or> c = CHR 0x0D"

definition messageLines :: "string \<Rightarrow> string list" where
  "messageLines m = map (\<lambda>l. rev (dropWhile gitIsSpace (rev l))) (splitOn newline m)"

definition subject :: "string \<Rightarrow> string" where
  "subject m = Join (takeWhile (\<lambda>l. l \<noteq> []) (dropWhile (\<lambda>l. l = []) (messageLines m))) '' ''"

definition blankMessage :: "string \<Rightarrow> bool" where
  "blankMessage m \<longleftrightarrow> list_all (\<lambda>l. l = []) (messageLines m)"

text \<open>
  The order of \<^verbatim>\<open>--date-order\<close>: no commit before all its children are shown, and
  among the commits that may come next the one with the latest commit time (of several
  with that time the model takes the one stored last, while git goes by the order of the
  refs; the theorems below do not rest on this choice).
  \<^verbatim>\<open>%h\<close> is taken to be the first seven digits of the name; git prints more of them
  when seven fit several objects.
\<close>

definition ready :: "commitObj list \<Rightarrow> commitObj list" where
  "ready cs = filter (\<lambda>c. list_all (\<lambda>d. oid c \<notin> set (parents d)) cs) cs"

fun latest :: "commitObj \<Rightarrow> commitObj list \<Rightarrow> commitObj" where
  "latest c [] = c"
| "latest c (d # ds) = (if commitTime c < commitTime d then latest d ds else latest c ds)"

fun dateOrder :: "nat \<Rightarrow> commitObj list \<Rightarrow> commitObj list" where
  "dateOrder 0 cs = []"
| "dateOrder (Suc k) cs =
     (case ready cs of
        [] \<Rightarrow> []
      | c # ds \<Rightarrow> (let n = latest c ds in n # dateOrder k (remove1 n cs)))"

definition allTips :: "repo \<Rightarrow> string list" where
  "allTips r =
     map snd (branches r) @ (case headCommit r of None \<Rightarrow> [] | Some c \<Rightarrow> [oid c])"

definition formatLine :: "commitObj \<Rightarrow> string" where
  "formatLine c =
     oid c @ ''|'' @ take 7 (oid c) @ ''|'' @ authorName c @ ''|'' @ authorDate c @ ''|'' @
     subject (message c)"


text \<open>
  Each command gives an exit status other than 0 (\<open>Inl\<close>) or its standard output
  (\<open>Inr\<close>), and the repository as it leaves it.
\<close>

definition gitRevParseAbbrevRefHEAD :: "repo \<Rightarrow> (nat + string) \<times> repo" where
  "gitRevParseAbbrevRefHEAD r =
     (case headCommit r of
        None \<Rightarrow> (Inl 128, r)
      | Some _ \<Rightarrow>
          (case HEAD r of
             OnBranch b \<Rightarrow> (Inr (b @ [newline]), r)
           | Detached _ \<Rightarrow> (Inr (''HEAD'' @ [newline]), r)))"

definition gitRevParseVerify :: "repo \<Rightarrow> string \<Rightarrow> (nat + string) \<times> repo" where
  "gitRevParseVerify r n =
     (case resolveRev r n of
        None \<Rightarrow> (Inl 128, r)
      | Some c \<Rightarrow> (Inr (oid c @ [newline]), r))"

definition gitBranch :: "repo \<Rightarrow> string \<Rightarrow> (nat + string) \<times> repo" where
  "gitBranch r n =
     (case map_of (branches r) n of
        Some _ \<Rightarrow> (Inl 128, r)
      | None \<Rightarrow>
          (case headCommit r of
             None \<Rightarrow> (Inl 128, r)
           | Some c \<Rightarrow> (Inr [], r\<lparr>branches := setBranch n (oid c) (branches r)\<rparr>)))"

definition gitCheckout :: "env \<Rightarrow> repo \<Rightarrow> string \<Rightarrow> (nat + string) \<times> repo" where
  "gitCheckout e r n =
     (case map_of (branches r) n of
        Some h \<Rightarrow>
          (case findObj r h of
             None \<Rightarrow> (Inl 128, r)
           | Some c \<Rightarrow>
               (case switchTrees e r (headTree r) (tree c) of
                  None \<Rightarrow> (Inl 1, r)
                | Some (i, w) \<Rightarrow> (Inr [], r\<lparr>HEAD := OnBranch n, index := i, worktree := w\<rparr>)))
      | None \<Rightarrow>
          (case resolveRev r n of
             None \<Rightarrow> (Inl 1, r)
           | Some c \<Rightarrow>
               (case switchTrees e r (headTree r) (tree c) of
                  None \<Rightarrow> (Inl 1, r)
                | Some (i, w) \<Rightarrow>
                    (Inr [], r\<lparr>HEAD := Detached (oid c), index := i, worktree := w\<rparr>))))"

definition mergeCommit :: "env \<Rightarrow> commitObj \<Rightarrow> commitObj \<Rightarrow> string \<Rightarrow> string \<Rightarrow> commitObj" where
  "mergeCommit e h c n t =
     \<lparr>oid = mergeOid e, parents = [oid h, oid c], tree = t, authorName = userName e,
      authorDate = nowISO e, commitTime = now e,
      message = ''Merge branch '' @ [CHR 0x27] @ n @ [CHR 0x27]\<rparr>"

definition gitMerge :: "bool \<Rightarrow> env \<Rightarrow> repo \<Rightarrow> string \<Rightarrow> (nat + string) \<times> repo" where
  "gitMerge ffOnly e r n =
     (case headCommit r of
        None \<Rightarrow> (Inl 128, r)
      | Some h \<Rightarrow>
          (case resolveRev r n of
             None \<Rightarrow> (Inl 1, r)
           | Some c \<Rightarrow>
               (if isAncestor r c h then (Inr ''Already up to date.'', r)
                else if isAncestor r h c then
                  (case switchTrees e r (tree h) (tree c) of
                     None \<Rightarrow> (Inl 1, r)
                   | Some (i, w) \<Rightarrow> (Inr [], (moveHead r (oid c))\<lparr>index := i, worktree := w\<rparr>))
                else if ffOnly then (Inl 128, r)
                else
                  (case (if index r = tree h \<and> worktree r = tree h
                         then Some (None :: (string \<times> string) option)
                         else map_option Some (localChanges e)) of
                     None \<Rightarrow> (Inl 1, r)
                   | Some keep \<Rightarrow>
                       (case mergeResult e of
                          Conflicts i w \<Rightarrow> (Inl 1, r\<lparr>index := i, worktree := w\<rparr>)
                        | Merged t \<Rightarrow>
                            (let r = moveHead (r\<lparr>objects := mergeCommit e h c n t # objects r\<rparr>)
                                       (mergeOid e)
                             in (Inr [],
                                 (case keep of
                                    None \<Rightarrow> r\<lparr>index := t, worktree := t\<rparr>
                                  | Some (i, w) \<Rightarrow> r\<lparr>index := i, worktree := w\<rparr>))))))))"

definition gitAddAll :: "repo \<Rightarrow> (nat + string) \<times> repo" where
  "gitAddAll r = (Inr [], r\<lparr>index := worktree r\<rparr>)"

text \<open>
  The value of a variable in a list of \<^verbatim>\<open>NAME=value\<close> entries; the last entry
  wins. \<^verbatim>\<open>git commit\<close> takes the name of the author from
  \<^verbatim>\<open>GIT_AUTHOR_NAME\<close> when it is set. It ends with the status 1 when the index is
  the tree of the current commit (nothing to commit) and when the message is blank.
\<close>

definition lookupEnv :: "string list \<Rightarrow> string \<Rightarrow> string option" where
  "lookupEnv envVars name =
     (case filter (\<lambda>v. take (Suc (length name)) v = name @ ''='') (rev envVars) of
        [] \<Rightarrow> None
      | v # _ \<Rightarrow> Some (drop (Suc (length name)) v))"

definition gitCommit :: "env \<Rightarrow> string list \<Rightarrow> repo \<Rightarrow> string \<Rightarrow> (nat + string) \<times> repo" where
  "gitCommit e envVars r m =
     (if index r = headTree r then (Inl 1, r)
      else if blankMessage m then (Inl 1, r)
      else
        (let c = \<lparr>oid = commitOid e,
                  parents = (case headCommit r of None \<Rightarrow> [] | Some h \<Rightarrow> [oid h]),
                  tree = index r,
                  authorName = (case lookupEnv envVars ''GIT_AUTHOR_NAME'' of
                                  None \<Rightarrow> userName e | Some a \<Rightarrow> a),
                  authorDate = nowISO e, commitTime = now e, message = m\<rparr>
         in (Inr [], moveHead (r\<lparr>objects := c # objects r\<rparr>) (commitOid e))))"

definition gitResetHard :: "repo \<Rightarrow> string \<Rightarrow> (nat + string) \<times> repo" where
  "gitResetHard r n =
     (case resolveRev r n of
        None \<Rightarrow> (Inl 128, r)
      | Some c \<Rightarrow> (Inr [], (moveHead r (oid c))\<lparr>index := tree c, worktree := tree c\<rparr>))"

definition gitLogAll :: "repo \<Rightarrow> int \<Rightarrow> (nat + string) \<times> repo" where
  "gitLogAll r k =
     (if k < 0 then (Inl 128, r)
      else (Inr (Join (map formatLine (dateOrder (nat k) (reach (objects r) (allTips r))))
                   [newline]), r))"

fun git :: "env \<Rightarrow> string list \<Rightarrow> gitCommand \<Rightarrow> repo \<Rightarrow> (nat + string) \<times> repo" where
  "git e envVars RevParseAbbrevRefHEAD r = gitRevParseAbbrevRefHEAD r"
| "git e envVars (RevParseVerify n) r = gitRevParseVerify r n"
| "git e envVars (Branch n) r = gitBranch r n"
| "git e envVars (Checkout n) r = gitCheckout e r n"
| "git e envVars (MergeFFOnly n) r = gitMerge True e r n"
| "git e envVars (Merge n) r = gitMerge False e r n"
| "git e envVars AddAll r = gitAddAll r"
| "git e envVars (CommitM m) r = gitCommit e envVars r m"
| "git e envVars (ResetHard n) r = gitResetHard r n"
| "git e envVars (LogAll k) r = gitLogAll r k"

subsection \<open>The manager\<close>

text \<open>
  A Go \<^verbatim>\<open>error\<close>: the \<^verbatim>\<open>*exec.ExitError\<close> of a command that ended with a status
  other than 0, or an error wrapped by \<^verbatim>\<open>fmt.Errorf\<close> with \<^verbatim>\<open>%w\<close> behind a text.
  \<open>None\<close> stands for \<^verbatim>\<open>nil\<close>. The commands are run without a standard error
  stream, so the exit status is all that comes back from a failure.
\<close>

datatype goError = ExitError nat | Errorf string goError

definition runGitCommand :: "env \<Rightarrow> gitCommand \<Rightarrow> repo \<Rightarrow> goError option \<times> repo" where
  "runGitCommand e args r =
     (case git e [] args r of
        (Inl status, r) \<Rightarrow> (Some (ExitError status), r)
      | (Inr out, r) \<Rightarrow> (None, r))"

definition runGitCommandWithOutput ::
  "env \<Rightarrow> gitCommand \<Rightarrow> repo \<Rightarrow> (string \<times> goError option) \<times> repo" where
  "runGitCommandWithOutput e args r =
     (case git e [] args r of
        (Inl status, r) \<Rightarrow> (([], Some (ExitError status)), r)
      | (Inr out, r) \<Rightarrow> ((out, None), r))"

definition runGitCommandWithEnv ::
  "env \<Rightarrow> string list \<Rightarrow> gitCommand \<Rightarrow> repo \<Rightarrow> goError option \<times> repo" where
  "runGitCommandWithEnv e envVars args r =
     (case git e envVars args r of
        (Inl status, r) \<Rightarrow> (Some (ExitError status), r)
      | (Inr out, r) \<Rightarrow> (None, r))"

text \<open>
  \<^verbatim>\<open>ensureMainBranch\<close>. Two blocks of its body are definitions of their own: the one
  that creates \<^verbatim>\<open>main\<close> when \<^verbatim>\<open>git rev-parse --verify main\<close> fails, and the one
  that merges the branch the working copy was on.
\<close>

definition createMainIfMissing :: "env \<Rightarrow> repo \<Rightarrow> goError option \<times> repo" where
  "createMainIfMissing e r =
     (case runGitCommand e (RevParseVerify ''main'') r of
        (Some err, r) \<Rightarrow>
          (case runGitCommand e (Branch ''main'') r of
             (Some err, r) \<Rightarrow> (Some (Errorf ''failed to create main branch: '' err), r)
           | (None, r) \<Rightarrow> (None, r))
      | (None, r) \<Rightarrow> (None, r))"

definition mergeOldBranch :: "env \<Rightarrow> string \<Rightarrow> repo \<Rightarrow> goError option \<times> repo" where
  "mergeOldBranch e currentBranch r =
     (if currentBranch \<noteq> ''HEAD'' then
        (case runGitCommand e (MergeFFOnly currentBranch) r of
           (Some err, r) \<Rightarrow>
             (case runGitCommand e (Merge currentBranch) r of
                (Some err, r) \<Rightarrow>
                  (Some (Errorf (''failed to merge '' @ currentBranch @ '' into main: '') err), r)
              | (None, r) \<Rightarrow> (None, r))
         | (None, r) \<Rightarrow> (None, r))
      else (None, r))"

definition ensureMainBranch :: "env \<Rightarrow> repo \<Rightarrow> goError option \<times> repo" where
  "ensureMainBranch e r =
     (case runGitCommandWithOutput e RevParseAbbrevRefHEAD r of
        ((currentBranch, Some err), r) \<Rightarrow>
          (Some (Errorf ''failed to get current branch: '' err), r)
      | ((currentBranch, None), r) \<Rightarrow>
          (let currentBranch = TrimSpace currentBranch in
           if currentBranch = ''main'' then (None, r)
           else
             (case createMainIfMissing e r of
                (Some err, r) \<Rightarrow> (Some err, r)
              | (None, r) \<Rightarrow>
                  (case runGitCommand e (Checkout ''main'') r of
                     (Some err, r) \<Rightarrow>
                       (Some (Errorf ''failed to checkout main branch: '' err), r)
                   | (None, r) \<Rightarrow> mergeOldBranch e currentBranch r))))"

definition CreateCommit :: "env \<Rightarrow> string \<Rightarrow> repo \<Rightarrow> goError option \<times> repo" where
  "CreateCommit e m r =
     (case ensureMainBranch e r of
        (Some err, r) \<Rightarrow> (Some (Errorf ''failed to ensure main branch: '' err), r)
      | (None, r) \<Rightarrow>
          (case runGitCommand e AddAll r of
             (Some err, r) \<Rightarrow> (Some (Errorf ''failed to stage changes: '' err), r)
           | (None, r) \<Rightarrow>
               (case runGitCommandWithEnv e
                       [''GIT_AUTHOR_NAME=Layrr'', ''GIT_AUTHOR_EMAIL=hitman@layrr.dev'',
                        ''GIT_COMMITTER_NAME=Layrr'', ''GIT_COMMITTER_EMAIL=hitman@layrr.dev'']
                       (CommitM m) r of
                  (Some err, r) \<Rightarrow> (Some (Errorf ''failed to create commit: '' err), r)
                | (None, r) \<Rightarrow> (None, r))))"

definition CheckoutCommit :: "env \<Rightarrow> string \<Rightarrow> repo \<Rightarrow> goError option \<times> repo" where
  "CheckoutCommit e commitHash r =
     (case ensureMainBranch e r of
        (Some err, r) \<Rightarrow> (Some (Errorf ''failed to ensure main branch: '' err), r)
      | (None, r) \<Rightarrow> runGitCommand e (ResetHard commitHash) r)"

text \<open>
  \<^verbatim>\<open>strings.SplitN(s, sep, n)\<close> for a separator of one byte: at most \<open>n\<close> pieces, the
  last one the unsplit rest.
\<close>

fun SplitN :: "string \<Rightarrow> char \<Rightarrow> nat \<Rightarrow> string list" where
  "SplitN s sep 0 = []"
| "SplitN s sep (Suc 0) = [s]"
| "SplitN s sep (Suc (Suc n)) =
     (if sep \<in> set s
      then takeWhile (\<lambda>c. c \<noteq> sep) s #
           SplitN (drop 1 (dropWhile (\<lambda>c. c \<noteq> sep) s)) sep (Suc n)
      else [s])"

text \<open>
  The value of \<^verbatim>\<open>time.Parse(time.RFC3339, s)\<close>, the zero time when \<open>s\<close> does not
  parse; the source drops the error.
\<close>

datatype goTime = TimeParseRFC3339 string

record Commit =
  Hash :: string
  Message :: string
  Author :: string
  Date :: goTime
  ShortHash :: string

text \<open>The loop over the lines of the output of \<^verbatim>\<open>git log\<close>.\<close>

fun parseLines :: "string list \<Rightarrow> Commit list" where
  "parseLines [] = []"
| "parseLines (line # lines) =
     (if line = [] then parseLines lines
      else
        (let parts = SplitN line (CHR ''|'') 5 in
         if length parts \<noteq> 5 then parseLines lines
         else \<lparr>Hash = parts ! 0, Message = parts ! 4, Author = parts ! 2,
                Date = TimeParseRFC3339 (parts ! 3), ShortHash = parts ! 1\<rparr> #
              parseLines lines))"

definition GetCommitHistory :: "env \<Rightarrow> int \<Rightarrow> repo \<Rightarrow> goError + Commit list" where
  "GetCommitHistory e limit r =
     (case runGitCommandWithOutput e (LogAll limit) r of
        ((output, Some err), r) \<Rightarrow> Inl (Errorf ''failed to get commit history: '' err)
      | ((output, None), r) \<Rightarrow> Inr (parseLines (splitOn newline (TrimSpace output))))"

subsection \<open>Sample repositories\<close>

definition oidA :: string where "oidA = ''1111111111111111111111111111111111111111''"
definition oidB :: string where "oidB = ''2222222222222222222222222222222222222222''"
definition oidC :: string where "oidC = ''3333333333333333333333333333333333333333''"
definition oidM :: string where "oidM = ''4444444444444444444444444444444444444444''"

definition commitA :: commitObj where
  "commitA = \<lparr>oid = oidA, parents = [], tree = ''tree A'', authorName = ''Layrr'',
              authorDate = ''2025-01-01T10:00:00+00:00'', commitTime = 1735725600,
              message = ''first checkpoint''\<rparr>"

definition commitB :: commitObj where
  "commitB = \<lparr>oid = oidB, parents = [oidA], tree = ''tree B'', authorName = ''Layrr'',
              authorDate = ''2025-01-01T11:00:00+00:00'', commitTime = 1735729200,
              message = ''second checkpoint''\<rparr>"

definition sampleEnv :: env where
  "sampleEnv = \<lparr>now = 1735732800, nowISO = ''2025-01-01T12:00:00+00:00'', commitOid = oidC,
                mergeOid = oidM, userName = ''User'', mergeResult = Merged ''tree M'',
                localChanges = None\<rparr>"

text \<open>Two checkpoints on \<^verbatim>\<open>main\<close>, the working tree as the second one left it.\<close>

definition twoCheckpoints :: repo where
  "twoCheckpoints =
     \<lparr>objects = [commitB, commitA], branches = [(''main'', oidB)], HEAD = OnBranch ''main'',
      index = ''tree B'', worktree = ''tree B''\<rparr>"

text \<open>The working copy is on a branch whose name is \<^verbatim>\<open>main\<close> followed by a no-break
  space (U+00A0), a name git accepts; there are changes to record.\<close>

definition nbspBranchRepo :: repo where
  "nbspBranchRepo =
     \<lparr>objects = [commitB, commitA],
      branches = [(''main'' @ [CHR 0xC2, CHR 0xA0], oidB)],
      HEAD = OnBranch (''main'' @ [CHR 0xC2, CHR 0xA0]),
      index = ''tree B'', worktree = ''tree C''\<rparr>"

definition listedA :: Commit where
  "listedA = \<lparr>Hash = oidA, Message = ''first checkpoint'', Author = ''Layrr'',
              Date = TimeParseRFC3339 ''2025-01-01T10:00:00+00:00'', ShortHash = ''1111111''\<rparr>"

definition listedB :: Commit where
  "listedB = \<lparr>Hash = oidB, Message = ''second checkpoint'', Author = ''Layrr'',
              Date = TimeParseRFC3339 ''2025-01-01T11:00:00+00:00'', ShortHash = ''2222222''\<rparr>"

lemma travel_sample:
  "CheckoutCommit sampleEnv oidA twoCheckpoints =
     (None, twoCheckpoints\<lparr>branches := [(''main'', oidA)], index := ''tree A'', worktree := ''tree A''\<rparr>)"
  by code_simp

lemma history_before: "GetCommitHistory sampleEnv 50 twoCheckpoints = Inr [listedB, listedA]"
  by code_simp

lemma history_after:
  "GetCommitHistory sampleEnv 50
     (twoCheckpoints\<lparr>branches := [(''main'', oidA)], index := ''tree A'', worktree := ''tree A''\<rparr>)
   = Inr [listedA]"
  by code_simp

text \<open>
  Claim C1. On a repository with the checkpoints A and then B on \<^verbatim>\<open>main\<close>, travelling
  to A succeeds and the current position is A; but the list of checkpoints, which held B
  and A before, holds only A afterwards: B, created after A, is no longer listed, because
  no branch reaches it once \<^verbatim>\<open>main\<close> was reset.
\<close>

theorem travel_hides_later_checkpoints:
  "GetCommitHistory sampleEnv 50 twoCheckpoints = Inr [listedB, listedA]
   \<and> fst (CheckoutCommit sampleEnv oidA twoCheckpoints) = None
   \<and> headCommit (snd (CheckoutCommit sampleEnv oidA twoCheckpoints)) = Some commitA
   \<and> GetCommitHistory sampleEnv 50 (snd (CheckoutCommit sampleEnv oidA twoCheckpoints))
       = Inr [listedA]
   \<and> Hash listedB \<noteq> Hash listedA"
proof -
  have "headCommit (twoCheckpoints\<lparr>branches := [(''main'', oidA)], index := ''tree A'',
      worktree := ''tree A''\<rparr>) = Some commitA"
    by code_simp
  moreover have "Hash listedB \<noteq> Hash listedA" by code_simp
  ultimately show ?thesis
    by (simp add: travel_sample history_before history_after)
qed

text \<open>
  Claim C2. On a branch named \<^verbatim>\<open>main\<close> plus a no-break space,
  \<^verbatim>\<open>ensureMainBranch\<close> trims the name to \<^verbatim>\<open>main\<close> and takes the working copy to be
  on the timeline branch. Creating a checkpoint succeeds, and the working copy is still on
  the other branch.
\<close>

theorem checkpoint_off_main:
  "fst (CreateCommit sampleEnv ''fix typo'' nbspBranchRepo) = None
   \<and> HEAD (snd (CreateCommit sampleEnv ''fix typo'' nbspBranchRepo))
       = OnBranch (''main'' @ [CHR 0xC2, CHR 0xA0])
   \<and> HEAD (snd (CreateCommit sampleEnv ''fix typo'' nbspBranchRepo)) \<noteq> OnBranch ''main''
   \<and> map_of (branches (snd (CreateCommit sampleEnv ''fix typo'' nbspBranchRepo))) ''main'' = None"
  by code_simp

subsection \<open>What a successful \<^verbatim>\<open>ensureMainBranch\<close> ran\<close>

lemma runGitCommand_None:
  "runGitCommand e c r = (None, r') \<longleftrightarrow> (\<exists>out. git e [] c r = (Inr out, r'))"
proof (cases "git e [] c r")
  case (Pair x r0)
  then show ?thesis by (cases x) (auto simp: runGitCommand_def)
qed

lemma runGitCommand_Some:
  "runGitCommand e c r = (Some err, r') \<longleftrightarrow> (\<exists>s. git e [] c r = (Inl s, r') \<and> err = ExitError s)"
proof (cases "git e [] c r")
  case (Pair x r0)
  then show ?thesis by (cases x) (auto simp: runGitCommand_def)
qed

lemma runGitCommandWithEnv_None:
  "runGitCommandWithEnv e vs c r = (None, r') \<longleftrightarrow> (\<exists>out. git e vs c r = (Inr out, r'))"
proof (cases "git e vs c r")
  case (Pair x r0)
  then show ?thesis by (cases x) (auto simp: runGitCommandWithEnv_def)
qed

lemma runGitCommandWithEnv_Some:
  "runGitCommandWithEnv e vs c r = (Some err, r') \<longleftrightarrow>
     (\<exists>s. git e vs c r = (Inl s, r') \<and> err = ExitError s)"
proof (cases "git e vs c r")
  case (Pair x r0)
  then show ?thesis by (cases x) (auto simp: runGitCommandWithEnv_def)
qed

lemma runGitCommandWithOutput_None:
  "runGitCommandWithOutput e c r = ((out, None), r') \<longleftrightarrow> git e [] c r = (Inr out, r')"
proof (cases "git e [] c r")
  case (Pair x r0)
  then show ?thesis by (cases x) (auto simp: runGitCommandWithOutput_def)
qed

lemma runGitCommandWithOutput_Some:
  "runGitCommandWithOutput e c r = ((out, Some err), r') \<longleftrightarrow>
     (\<exists>s. git e [] c r = (Inl s, r') \<and> err = ExitError s \<and> out = [])"
proof (cases "git e [] c r")
  case (Pair x r0)
  then show ?thesis by (cases x) (auto simp: runGitCommandWithOutput_def)
qed

lemma gitRevParseAbbrevRefHEAD_same: "snd (gitRevParseAbbrevRefHEAD r) = r"
  by (simp add: gitRevParseAbbrevRefHEAD_def split: option.splits headRef.splits)



lemma mergeOldBranch_success:
  assumes "mergeOldBranch e cb r2 = (None, r')"
  shows "cb = ''HEAD'' \<and> r' = r2
       \<or> cb \<noteq> ''HEAD'' \<and>
          ((\<exists>o3. gitMerge True e r2 cb = (Inr o3, r'))
           \<or> (\<exists>s r3 o3. gitMerge True e r2 cb = (Inl s, r3) \<and> gitMerge False e r3 cb = (Inr o3, r')))"
proof (cases "cb = ''HEAD''")
  case True
  with assms show ?thesis by (simp add: mergeOldBranch_def)
next
  case False
  obtain x r3 where m: "gitMerge True e r2 cb = (x, r3)" by (metis prod.exhaust)
  show ?thesis
  proof (cases x)
    case (Inr o3)
    with m False assms show ?thesis
      by (simp add: mergeOldBranch_def runGitCommand_def)
  next
    case (Inl s)
    obtain y r4 where m2: "gitMerge False e r3 cb = (y, r4)" by (metis prod.exhaust)
    with Inl m False assms show ?thesis
      by (cases y) (simp_all add: mergeOldBranch_def runGitCommand_def)
  qed
qed

lemma ensureMainBranch_success:
  assumes "ensureMainBranch e r = (None, r')"
  shows "\<exists>out. gitRevParseAbbrevRefHEAD r = (Inr out, r) \<and>
     (TrimSpace out = ''main'' \<and> r' = r
      \<or> TrimSpace out \<noteq> ''main'' \<and>
        (\<exists>r1 r2 o2. createMainIfMissing e r = (None, r1)
          \<and> gitCheckout e r1 ''main'' = (Inr o2, r2)
          \<and> mergeOldBranch e (TrimSpace out) r2 = (None, r')))"
proof -
  obtain x r0 where a: "gitRevParseAbbrevRefHEAD r = (x, r0)" by (metis prod.exhaust)
  with gitRevParseAbbrevRefHEAD_same [of r] have r0: "r0 = r" by simp
  show ?thesis
  proof (cases x)
    case (Inl s)
    with a assms show ?thesis
      by (simp add: ensureMainBranch_def runGitCommandWithOutput_def)
  next
    case (Inr out)
    show ?thesis
    proof (cases "TrimSpace out = ''main''")
      case True
      with Inr a r0 assms show ?thesis
        by (simp add: ensureMainBranch_def runGitCommandWithOutput_def)
    next
      case False
      obtain b r1 where b: "createMainIfMissing e r = (b, r1)" by (metis prod.exhaust)
      from Inr a r0 False assms
      have step: "(case createMainIfMissing e r of
                (Some err, r) \<Rightarrow> (Some err, r)
              | (None, r) \<Rightarrow>
                  (case runGitCommand e (Checkout ''main'') r of
                     (Some err, r) \<Rightarrow>
                       (Some (Errorf ''failed to checkout main branch: '' err), r)
                   | (None, r) \<Rightarrow> mergeOldBranch e (TrimSpace out) r)) = (None, r')"
        by (simp add: ensureMainBranch_def runGitCommandWithOutput_def Let_def)
      with b have b0: "b = None" by (cases b) simp_all
      obtain y r2 where c: "gitCheckout e r1 ''main'' = (y, r2)" by (metis prod.exhaust)
      from step b b0 c obtain o2 where y: "y = Inr o2"
        by (cases y) (simp_all add: runGitCommand_def)
      with step b b0 c have "mergeOldBranch e (TrimSpace out) r2 = (None, r')"
        by (simp add: runGitCommand_def)
      with Inr a r0 False b b0 c y show ?thesis by blast
    qed
  qed
qed

subsection \<open>Where \<^verbatim>\<open>HEAD\<close> is after each command\<close>

lemma moveHead_HEAD: "HEAD r = OnBranch b \<Longrightarrow> HEAD (moveHead r h) = OnBranch b"
  by (simp add: moveHead_def)

lemma gitBranch_HEAD: "HEAD (snd (gitBranch r n)) = HEAD r"
  by (simp add: gitBranch_def split: option.splits)

lemma isHexName_main: "\<not> isHexName ''main''"
  by (simp add: isHexName_def)

lemma gitCheckout_main:
  assumes "gitCheckout e r ''main'' = (Inr out, r')"
  shows "HEAD r' = OnBranch ''main''"
proof (cases "map_of (branches r) ''main''")
  case None
  then have "resolveRev r ''main'' = None"
    by (simp add: resolveRev_def isHexName_main)
  with None assms show ?thesis by (simp add: gitCheckout_def)
next
  case (Some h)
  with assms show ?thesis
    by (auto simp: gitCheckout_def split: option.splits)
qed

lemma gitMerge_HEAD:
  "HEAD r = OnBranch b \<Longrightarrow> HEAD (snd (gitMerge f e r n)) = OnBranch b"
  by (simp add: gitMerge_def moveHead_HEAD Let_def
      split: option.splits mergeResult.splits prod.splits)

lemma gitMerge_ff_fails: "gitMerge True e r n = (Inl s, r') \<Longrightarrow> r' = r"
  by (auto simp: gitMerge_def Let_def split: option.splits if_splits)

lemma mergeOldBranch_HEAD:
  assumes "mergeOldBranch e cb r = (None, r')" and "HEAD r = OnBranch b"
  shows "HEAD r' = OnBranch b"
proof -
  from mergeOldBranch_success [OF assms(1)]
  consider "r' = r"
    | o3 where "gitMerge True e r cb = (Inr o3, r')"
    | s r3 o3 where "gitMerge True e r cb = (Inl s, r3)" "gitMerge False e r3 cb = (Inr o3, r')"
    by blast
  then show ?thesis
  proof cases
    case 1
    with assms show ?thesis by simp
  next
    case 2
    with gitMerge_HEAD [OF assms(2), of True e cb] show ?thesis by simp
  next
    case 3
    from 3(1) have "r3 = r" by (rule gitMerge_ff_fails)
    with 3(2) gitMerge_HEAD [OF assms(2), of False e cb] show ?thesis by simp
  qed
qed

lemma TrimSpace_HEAD: "TrimSpace (''HEAD'' @ [newline]) = ''HEAD''"
  by code_simp

lemma TrimSpace_main: "TrimSpace (''main'' @ [newline]) = ''main''"
  by code_simp

lemma gitRevParseAbbrevRefHEAD_out:
  assumes "gitRevParseAbbrevRefHEAD r = (Inr out, r')"
  shows "headCommit r \<noteq> None \<and>
         ((\<exists>b. HEAD r = OnBranch b \<and> out = b @ [newline])
          \<or> (\<exists>h. HEAD r = Detached h) \<and> out = ''HEAD'' @ [newline])"
  using assms
  by (cases "HEAD r") (auto simp: gitRevParseAbbrevRefHEAD_def split: option.splits)

text \<open>
  The name of the branch the working copy is on is not mistaken for \<^verbatim>\<open>main\<close>: it is
  \<^verbatim>\<open>main\<close>, or trimming it does not give \<^verbatim>\<open>main\<close>.
\<close>

definition branchNameHonest :: "repo \<Rightarrow> bool" where
  "branchNameHonest r =
     (case HEAD r of
        OnBranch b \<Rightarrow> b = ''main'' \<or> TrimSpace (b @ [newline]) \<noteq> ''main''
      | Detached h \<Rightarrow> True)"

lemma ensureMainBranch_on_main:
  assumes "ensureMainBranch e r = (None, r')" and "branchNameHonest r"
  shows "HEAD r' = OnBranch ''main''"
proof -
  from ensureMainBranch_success [OF assms(1)] obtain out where
    g: "gitRevParseAbbrevRefHEAD r = (Inr out, r)" and
    c: "TrimSpace out = ''main'' \<and> r' = r
      \<or> TrimSpace out \<noteq> ''main'' \<and>
        (\<exists>r1 r2 o2. createMainIfMissing e r = (None, r1)
          \<and> gitCheckout e r1 ''main'' = (Inr o2, r2)
          \<and> mergeOldBranch e (TrimSpace out) r2 = (None, r'))"
    by blast
  from c show ?thesis
  proof
    assume t: "TrimSpace out = ''main'' \<and> r' = r"
    from gitRevParseAbbrevRefHEAD_out [OF g]
    consider b where "HEAD r = OnBranch b" "out = b @ [newline]"
      | "out = ''HEAD'' @ [newline]" by blast
    then show ?thesis
    proof cases
      case 1
      with t assms(2) show ?thesis by (simp add: branchNameHonest_def)
    next
      case 2
      with t TrimSpace_HEAD show ?thesis by simp
    qed
  next
    assume "TrimSpace out \<noteq> ''main'' \<and>
        (\<exists>r1 r2 o2. createMainIfMissing e r = (None, r1)
          \<and> gitCheckout e r1 ''main'' = (Inr o2, r2)
          \<and> mergeOldBranch e (TrimSpace out) r2 = (None, r'))"
    then obtain r1 r2 o2 where co: "gitCheckout e r1 ''main'' = (Inr o2, r2)"
      and m: "mergeOldBranch e (TrimSpace out) r2 = (None, r')" by blast
    from co have "HEAD r2 = OnBranch ''main''" by (rule gitCheckout_main)
    with m show ?thesis by (rule mergeOldBranch_HEAD)
  qed
qed

lemma gitCommit_HEAD: "HEAD r = OnBranch b \<Longrightarrow> HEAD (snd (gitCommit e vs r m)) = OnBranch b"
  by (simp add: gitCommit_def moveHead_HEAD Let_def)

lemma gitResetHard_HEAD: "HEAD r = OnBranch b \<Longrightarrow> HEAD (snd (gitResetHard r n)) = OnBranch b"
  by (simp add: gitResetHard_def moveHead_HEAD split: option.splits)

lemma CreateCommit_success:
  assumes "CreateCommit e m r = (None, r')"
  shows "\<exists>r1 out. ensureMainBranch e r = (None, r1) \<and>
           gitCommit e [''GIT_AUTHOR_NAME=Layrr'', ''GIT_AUTHOR_EMAIL=hitman@layrr.dev'',
                        ''GIT_COMMITTER_NAME=Layrr'', ''GIT_COMMITTER_EMAIL=hitman@layrr.dev'']
             (r1\<lparr>index := worktree r1\<rparr>) m = (Inr out, r')"
proof -
  obtain x r1 where en: "ensureMainBranch e r = (x, r1)" by (metis prod.exhaust)
  with assms have x: "x = None" by (cases x) (simp_all add: CreateCommit_def)
  let ?vs = "[''GIT_AUTHOR_NAME=Layrr'', ''GIT_AUTHOR_EMAIL=hitman@layrr.dev'',
              ''GIT_COMMITTER_NAME=Layrr'', ''GIT_COMMITTER_EMAIL=hitman@layrr.dev'']"
  obtain y r2 where gc: "gitCommit e ?vs (r1\<lparr>index := worktree r1\<rparr>) m = (y, r2)"
    by (metis prod.exhaust)
  with assms en x show ?thesis
    by (cases y) (simp_all add: CreateCommit_def runGitCommand_def runGitCommandWithEnv_def
        gitAddAll_def)
qed

lemma CheckoutCommit_success:
  assumes "CheckoutCommit e h r = (None, r')"
  shows "\<exists>r1 out. ensureMainBranch e r = (None, r1) \<and> gitResetHard r1 h = (Inr out, r')"
proof -
  obtain x r1 where en: "ensureMainBranch e r = (x, r1)" by (metis prod.exhaust)
  with assms have x: "x = None" by (cases x) (simp_all add: CheckoutCommit_def)
  obtain y r2 where gc: "gitResetHard r1 h = (y, r2)" by (metis prod.exhaust)
  with assms en x show ?thesis
    by (cases y) (simp_all add: CheckoutCommit_def runGitCommand_def)
qed

text \<open>
  When the name of the current branch is not mistaken for \<^verbatim>\<open>main\<close>, a successful
  \<^verbatim>\<open>CreateCommit\<close> or \<^verbatim>\<open>CheckoutCommit\<close> leaves \<^verbatim>\<open>HEAD\<close> on the branch
  \<^verbatim>\<open>main\<close>, not detached.
\<close>

lemma on_main_after_success:
  assumes "branchNameHonest r"
  shows "(fst (CreateCommit e m r) = None \<longrightarrow> HEAD (snd (CreateCommit e m r)) = OnBranch ''main'')
       \<and> (fst (CheckoutCommit e h r) = None \<longrightarrow> HEAD (snd (CheckoutCommit e h r)) = OnBranch ''main'')"
proof (intro conjI impI)
  assume "fst (CreateCommit e m r) = None"
  then have "CreateCommit e m r = (None, snd (CreateCommit e m r))" by (metis prod.collapse)
  from CreateCommit_success [OF this] obtain r1 out vs where
    en: "ensureMainBranch e r = (None, r1)" and
    gc: "gitCommit e vs (r1\<lparr>index := worktree r1\<rparr>) m = (Inr out, snd (CreateCommit e m r))"
    by blast
  from en assms have "HEAD r1 = OnBranch ''main''" by (rule ensureMainBranch_on_main)
  then have "HEAD (r1\<lparr>index := worktree r1\<rparr>) = OnBranch ''main''" by simp
  from gitCommit_HEAD [OF this, of e vs m] gc
  show "HEAD (snd (CreateCommit e m r)) = OnBranch ''main''" by simp
next
  assume "fst (CheckoutCommit e h r) = None"
  then have "CheckoutCommit e h r = (None, snd (CheckoutCommit e h r))" by (metis prod.collapse)
  from CheckoutCommit_success [OF this] obtain r1 out where
    en: "ensureMainBranch e r = (None, r1)" and
    gr: "gitResetHard r1 h = (Inr out, snd (CheckoutCommit e h r))"
    by blast
  from en assms have "HEAD r1 = OnBranch ''main''" by (rule ensureMainBranch_on_main)
  from gitResetHard_HEAD [OF this, of h] gr
  show "HEAD (snd (CheckoutCommit e h r)) = OnBranch ''main''" by simp
qed

subsection \<open>Failures\<close>

lemma ensureMainBranch_already_on_main:
  assumes "HEAD r = OnBranch ''main''"
  shows "snd (ensureMainBranch e r) = r"
proof (cases "headCommit r")
  case None
  then show ?thesis
    by (simp add: ensureMainBranch_def runGitCommandWithOutput_def gitRevParseAbbrevRefHEAD_def)
next
  case (Some c)
  with assms have "gitRevParseAbbrevRefHEAD r = (Inr (''main'' @ [newline]), r)"
    by (simp add: gitRevParseAbbrevRefHEAD_def)
  then show ?thesis
    by (simp add: ensureMainBranch_def runGitCommandWithOutput_def TrimSpace_main
        del: append.simps)
qed

lemma gitResetHard_fails: "gitResetHard r n = (Inl s, r') \<Longrightarrow> r' = r"
  by (auto simp: gitResetHard_def split: option.splits)

lemma gitCommit_fails: "gitCommit e vs r m = (Inl s, r') \<Longrightarrow> r' = r \<and> s = 1"
  by (auto simp: gitCommit_def Let_def split: if_splits)

lemma CheckoutCommit_failure:
  assumes "fst (CheckoutCommit e h r) \<noteq> None"
  shows "snd (CheckoutCommit e h r) = snd (ensureMainBranch e r)"
proof -
  obtain x r1 where en: "ensureMainBranch e r = (x, r1)" by (metis prod.exhaust)
  show ?thesis
  proof (cases x)
    case (Some err)
    with en show ?thesis by (simp add: CheckoutCommit_def)
  next
    case None
    obtain y r2 where g: "gitResetHard r1 h = (y, r2)" by (metis prod.exhaust)
    show ?thesis
    proof (cases y)
      case (Inl s)
      with g have "r2 = r1" using gitResetHard_fails by blast
      with en None g Inl show ?thesis by (simp add: CheckoutCommit_def runGitCommand_def)
    next
      case (Inr out)
      with en None g assms show ?thesis by (simp add: CheckoutCommit_def runGitCommand_def)
    qed
  qed
qed

lemma CreateCommit_failure:
  assumes "fst (CreateCommit e m r) \<noteq> None"
  shows "snd (CreateCommit e m r) = snd (ensureMainBranch e r)
       \<or> snd (CreateCommit e m r) = (snd (ensureMainBranch e r))\<lparr>index := worktree (snd (ensureMainBranch e r))\<rparr>"
proof -
  obtain x r1 where en: "ensureMainBranch e r = (x, r1)" by (metis prod.exhaust)
  show ?thesis
  proof (cases x)
    case (Some err)
    with en show ?thesis by (simp add: CreateCommit_def)
  next
    case None
    let ?vs = "[''GIT_AUTHOR_NAME=Layrr'', ''GIT_AUTHOR_EMAIL=hitman@layrr.dev'',
                ''GIT_COMMITTER_NAME=Layrr'', ''GIT_COMMITTER_EMAIL=hitman@layrr.dev'']"
    obtain y r2 where g: "gitCommit e ?vs (r1\<lparr>index := worktree r1\<rparr>) m = (y, r2)"
      by (metis prod.exhaust)
    show ?thesis
    proof (cases y)
      case (Inl s)
      with g have "r2 = r1\<lparr>index := worktree r1\<rparr>" using gitCommit_fails by blast
      with en None g Inl show ?thesis
        by (simp add: CreateCommit_def runGitCommand_def runGitCommandWithEnv_def gitAddAll_def)
    next
      case (Inr out)
      with en None g assms show ?thesis
        by (simp add: CreateCommit_def runGitCommand_def runGitCommandWithEnv_def gitAddAll_def)
    qed
  qed
qed

text \<open>
  Claim C5, as amended. When the working copy is on \<^verbatim>\<open>main\<close> already, a failed
  \<^verbatim>\<open>CheckoutCommit\<close> leaves the repository as it was, and a failed
  \<^verbatim>\<open>CreateCommit\<close> leaves the commits, the branches, \<^verbatim>\<open>HEAD\<close> and the working
  tree as they were; only the index may hold what \<^verbatim>\<open>git add .\<close> staged.
\<close>

theorem failure_on_main_keeps_state:
  assumes "HEAD r = OnBranch ''main''"
  shows "(fst (CheckoutCommit e h r) \<noteq> None \<longrightarrow> snd (CheckoutCommit e h r) = r)
       \<and> (fst (CreateCommit e m r) \<noteq> None \<longrightarrow>
            snd (CreateCommit e m r) = r \<or> snd (CreateCommit e m r) = r\<lparr>index := worktree r\<rparr>)"
  using assms CheckoutCommit_failure [of e h r] CreateCommit_failure [of e m r]
    ensureMainBranch_already_on_main [of r e]
  by simp

theorem failure_on_main_keeps_state_witness:
  "HEAD twoCheckpoints = OnBranch ''main''
   \<and> fst (CheckoutCommit sampleEnv ''0000000'' twoCheckpoints) \<noteq> None
   \<and> snd (CheckoutCommit sampleEnv ''0000000'' twoCheckpoints) = twoCheckpoints
   \<and> fst (CreateCommit sampleEnv ''fix typo'' twoCheckpoints) \<noteq> None
   \<and> (snd (CreateCommit sampleEnv ''fix typo'' twoCheckpoints) = twoCheckpoints
      \<or> snd (CreateCommit sampleEnv ''fix typo'' twoCheckpoints)
          = twoCheckpoints\<lparr>index := worktree twoCheckpoints\<rparr>)"
proof -
  have h: "HEAD twoCheckpoints = OnBranch ''main''" by (simp add: twoCheckpoints_def)
  have a: "fst (CheckoutCommit sampleEnv ''0000000'' twoCheckpoints) \<noteq> None" by code_simp
  have b: "fst (CreateCommit sampleEnv ''fix typo'' twoCheckpoints) \<noteq> None" by code_simp
  from failure_on_main_keeps_state [OF h, of sampleEnv "''0000000''" "''fix typo''"] h a b
  show ?thesis by blast
qed

text \<open>
  \<^verbatim>\<open>HEAD\<close> is detached at the first checkpoint, the working tree is as that
  checkpoint left it, and \<^verbatim>\<open>main\<close> is at the second checkpoint.
\<close>

definition detachedRepo :: repo where
  "detachedRepo =
     \<lparr>objects = [commitB, commitA], branches = [(''main'', oidB)], HEAD = Detached oidA,
      index = ''tree A'', worktree = ''tree A''\<rparr>"

text \<open>
  Creating a checkpoint there fails, since there is nothing to commit, and travelling to
  an unknown checkpoint fails too; both leave the working copy switched to \<^verbatim>\<open>main\<close>,
  with the files of the second checkpoint.
\<close>

theorem failure_moves_working_copy_counterexample:
  "CreateCommit sampleEnv ''fix typo'' detachedRepo
     = (Some (Errorf ''failed to create commit: '' (ExitError 1)),
        detachedRepo\<lparr>HEAD := OnBranch ''main'', index := ''tree B'', worktree := ''tree B''\<rparr>)
   \<and> CheckoutCommit sampleEnv ''0000000'' detachedRepo
     = (Some (ExitError 128),
        detachedRepo\<lparr>HEAD := OnBranch ''main'', index := ''tree B'', worktree := ''tree B''\<rparr>)
   \<and> detachedRepo\<lparr>HEAD := OnBranch ''main'', index := ''tree B'', worktree := ''tree B''\<rparr>
       \<noteq> detachedRepo"
  by code_simp

subsection \<open>Reading the first line of the log\<close>








subsection \<open>The newest commit comes first in the log\<close>












subsection \<open>Nothing to record\<close>


lemma headCommit_trees [simp]:
  "headCommit (r\<lparr>index := i\<rparr>) = headCommit r"
  "headCommit (r\<lparr>worktree := w\<rparr>) = headCommit r"
  by (simp_all add: headCommit_def branchTip_def findObj_def
      split: headRef.splits option.splits)

lemma headTree_trees [simp]:
  "headTree (r\<lparr>index := i\<rparr>) = headTree r"
  "headTree (r\<lparr>worktree := w\<rparr>) = headTree r"
  by (simp_all add: headTree_def)













subsection \<open>Creating a checkpoint\<close>








text \<open>A repository on \<^verbatim>\<open>main\<close> with an edited working tree.\<close>

definition changedRepo :: repo where
  "changedRepo = twoCheckpoints\<lparr>worktree := ''tree C''\<rparr>"











subsection \<open>The two conditional properties on sample inputs\<close>

lemma on_main_after_success_witness:
  "branchNameHonest detachedRepo
   \<and> fst (CheckoutCommit sampleEnv oidA detachedRepo) = None
   \<and> HEAD (snd (CheckoutCommit sampleEnv oidA detachedRepo)) = OnBranch ''main''
   \<and> branchNameHonest changedRepo
   \<and> fst (CreateCommit sampleEnv ''fix typo'' changedRepo) = None
   \<and> HEAD (snd (CreateCommit sampleEnv ''fix typo'' changedRepo)) = OnBranch ''main''"
proof -
  have a: "branchNameHonest detachedRepo" by code_simp
  have b: "fst (CheckoutCommit sampleEnv oidA detachedRepo) = None" by code_simp
  have c: "branchNameHonest changedRepo" by code_simp
  have d: "fst (CreateCommit sampleEnv ''fix typo'' changedRepo) = None" by code_simp
  from on_main_after_success [OF a, of sampleEnv "''fix typo''" oidA]
    on_main_after_success [OF c, of sampleEnv "''fix typo''" oidA] a b c d
  show ?thesis by blast
qed

lemma formatMessage_single_line_witness:
  "newline \<notin> set (Instruction (exampleMessage 2 2))
   \<and> (\<forall>el \<in> set (take 20 (Elements (Area (exampleMessage 2 2)))). newline \<notin> set (Selector el))
   \<and> newline \<notin> set (formatMessage (exampleMessage 2 2))"
proof -
  have a: "newline \<notin> set (Instruction (exampleMessage 2 2))"
    by (simp add: exampleMessage_def newline_def)
  have b: "\<forall>el \<in> set (take 20 (Elements (Area (exampleMessage 2 2)))). newline \<notin> set (Selector el)"
    by (simp add: exampleMessage_def exampleElement_def newline_def)
  from formatMessage_single_line [OF a b] a b show ?thesis by blast
qed

end
